theory Spec2Isabelle
  imports Main
begin

section \<open>Syntax tree of a component declaration\<close>

text \<open>
  The transpiler of \<^verbatim>\<open>src/pyreact.py\<close> works on the tree that Python's \<^verbatim>\<open>ast\<close> module
  produces. The node kinds below are the ones the code tests with \<^verbatim>\<open>isinstance\<close>; every
  other kind is carried by a catch-all constructor, since the code treats them alike.

  A constant holds a Python value. Strings, booleans, integers and \<^verbatim>\<open>None\<close> are modelled
  as such. A value of another type (float, complex, bytes, Ellipsis) is carried by the
  integer that it equals, if there is one (the float \<^verbatim>\<open>1.0\<close> equals 1, the complex
  \<^verbatim>\<open>0j\<close> equals 0), and by the text that \<^verbatim>\<open>str()\<close> gives for it. That text is the
  shortest that reads back as the value, so two floats or two complex numbers are equal
  exactly when their texts are.

  Exhaustion of the interpreter's resources (recursion depth, memory) is not modelled.
\<close>

datatype py_value = CStr string | CBool bool | CInt int | CNone | COther "int option" string

datatype error = ValueError string

datatype operator = Add | Sub | Mult | Div | OtherOp string

text \<open>
  \<^verbatim>\<open>Dict\<close> holds \<^verbatim>\<open>zip(keys, values)\<close>; a key is absent for a \<^verbatim>\<open>**\<close> entry.
  \<^verbatim>\<open>Call\<close> holds the callee, the positional arguments and the keywords (a keyword's
  name is absent for \<^verbatim>\<open>**kwargs\<close>). The values of a \<^verbatim>\<open>JoinedStr\<close> are, as the parser
  builds them, string constants and formatted values.
\<close>

datatype expr =
    Dict "(expr option \<times> expr) list"
  | Constant py_value
  | Name string
  | Attribute expr string
  | BinOp expr operator expr
  | JoinedStr "joined_part list"
  | Call expr "expr list" "(string option \<times> expr) list"
  | Subscript expr expr
  | ListLit "expr list"
  | OtherExpr string
and joined_part =
    Literal string
  | FormattedValue expr

text \<open>
  Statements. \<^verbatim>\<open>OtherStmt\<close> is any other node that can hold statements (\<^verbatim>\<open>If\<close>,
  \<^verbatim>\<open>For\<close>, \<^verbatim>\<open>With\<close>, \<^verbatim>\<open>Try\<close>, an exception handler, \<open>\<dots>\<close>) with the statements
  below it in the order of its fields, or none (\<^verbatim>\<open>Pass\<close>, \<^verbatim>\<open>AugAssign\<close>, \<open>\<dots>\<close>).
\<close>

datatype stmt =
    FunctionDef string "string list" "stmt list"
  | ClassDef string "stmt list"
  | Assign "expr list" expr
  | Return "expr option"
  | Expr expr
  | OtherStmt string "stmt list"

section \<open>Text\<close>

definition dq :: char where "dq = CHR 0x22"
definition sq :: char where "sq = CHR 0x27"
definition nl :: char where "nl = CHR 0x0A"

text \<open>\<^verbatim>\<open>sep.join(parts)\<close>\<close>

fun join :: "string \<Rightarrow> string list \<Rightarrow> string" where
  "join sep [] = []"
| "join sep [x] = x"
| "join sep (x # y # ys) = x @ sep @ join sep (y # ys)"

text \<open>The decimal digits of an integer, with a minus sign below zero.\<close>

function decimal_nat :: "nat \<Rightarrow> string" where
  "decimal_nat n = (if n < 10 then [''0123456789'' ! n]
                    else decimal_nat (n div 10) @ [''0123456789'' ! (n mod 10)])"
  by pat_completeness auto
termination
  by (relation "measure id") auto

declare decimal_nat.simps [simp del]

definition decimal :: "int \<Rightarrow> string" where
  "decimal i = (if i < 0 then CHR ''-'' # decimal_nat (nat (- i)) else decimal_nat (nat i))"

text \<open>
  \<^verbatim>\<open>str(n)\<close> for an integer. The interpreter refuses to convert an integer of more than
  \<^verbatim>\<open>sys.int_info.default_max_str_digits\<close> decimal digits, that is one whose absolute
  value is at least \<open>10 ^ 4300\<close>, and raises this error. (A decimal literal of that size
  does not parse; a hexadecimal one does.)
\<close>

definition max_str_digits :: nat where
  "max_str_digits = 4300"

definition int_str_error :: error where
  "int_str_error = ValueError
     (''Exceeds the limit (4300 digits) for integer string conversion; ''
      @ ''use sys.set_int_max_str_digits() to increase the limit'')"

definition str_int :: "int \<Rightarrow> error + string" where
  "str_int i = (if 10 ^ max_str_digits \<le> \<bar>i\<bar> then Inl int_str_error else Inr (decimal i))"

text \<open>\<^verbatim>\<open>str(value)\<close>, which is also what an f-string placeholder \<^verbatim>\<open>{value}\<close> gives.\<close>

fun py_str :: "py_value \<Rightarrow> error + string" where
  "py_str (CStr s) = Inr s"
| "py_str (CBool b) = Inr (if b then ''True'' else ''False'')"
| "py_str (CInt i) = str_int i"
| "py_str CNone = Inr ''None''"
| "py_str (COther v s) = Inr s"

definition str_raises :: "py_value \<Rightarrow> bool" where
  "str_raises c = isl (py_str c)"

text \<open>
  The transpiler is modelled in two layers. The functions named after the functions of
  the code give the text that the code returns when no conversion raises; in them
  \<open>py_text\<close> is the text of \<^verbatim>\<open>str(value)\<close>. The functions named \<open>\<dots>_raises\<close> follow the
  same calls and tell whether a conversion raises on the way; \<open>transpile_component\<close>
  puts the two together and returns the error or the text.
\<close>

fun py_text :: "py_value \<Rightarrow> string" where
  "py_text (CStr s) = s"
| "py_text (CBool b) = (if b then ''True'' else ''False'')"
| "py_text (CInt i) = decimal i"
| "py_text CNone = ''None''"
| "py_text (COther v s) = s"

text \<open>\<^verbatim>\<open>s.strip(chars)\<close>: drops the characters of \<^verbatim>\<open>chars\<close> from both ends.\<close>

definition strip :: "char list \<Rightarrow> string \<Rightarrow> string" where
  "strip chars s =
     rev (dropWhile (\<lambda>c. c \<in> set chars) (rev (dropWhile (\<lambda>c. c \<in> set chars) s)))"

section \<open>Dictionaries\<close>

text \<open>
  A Python \<^verbatim>\<open>dict\<close> keeps its keys in insertion order; storing under a key that is
  already there replaces the value and keeps the key's place (and the key object).
  The equality of keys is a parameter: names are compared as strings, Python values with
  \<^verbatim>\<open>==\<close>.
\<close>

fun dict_set :: "('k \<Rightarrow> 'k \<Rightarrow> bool) \<Rightarrow> 'k \<Rightarrow> 'v \<Rightarrow> ('k \<times> 'v) list \<Rightarrow> ('k \<times> 'v) list" where
  "dict_set eq k v [] = [(k, v)]"
| "dict_set eq k v ((k', v') # d) =
     (if eq k' k then (k', v) # d else (k', v') # dict_set eq k v d)"

fun dict_has :: "('k \<Rightarrow> 'k \<Rightarrow> bool) \<Rightarrow> 'k \<Rightarrow> ('k \<times> 'v) list \<Rightarrow> bool" where
  "dict_has eq k [] = False"
| "dict_has eq k ((k', v') # d) = (eq k' k \<or> dict_has eq k d)"

text \<open>
  \<^verbatim>\<open>==\<close> on constant values, as the keys of a dictionary are compared. Numbers are
  compared by value across their types: \<^verbatim>\<open>1 == 1.0 == True\<close> and \<^verbatim>\<open>0 == 0j\<close>. So a value
  that equals an integer is compared through that integer; the other values are equal
  when they are of the same kind and have the same text.
\<close>

fun int_value :: "py_value \<Rightarrow> int option" where
  "int_value (CInt i) = Some i"
| "int_value (CBool b) = Some (if b then 1 else 0)"
| "int_value (COther v s) = v"
| "int_value (CStr s) = None"
| "int_value CNone = None"

fun same_text :: "py_value \<Rightarrow> py_value \<Rightarrow> bool" where
  "same_text (CStr a) (CStr b) = (a = b)"
| "same_text CNone CNone = True"
| "same_text (COther v a) (COther w b) = (a = b)"
| "same_text _ _ = False"

definition py_eq :: "py_value \<Rightarrow> py_value \<Rightarrow> bool" where
  "py_eq a b =
     (case (int_value a, int_value b) of
        (Some i, Some j) \<Rightarrow> i = j
      | (None, None) \<Rightarrow> same_text a b
      | _ \<Rightarrow> False)"

section \<open>Expression transpiler\<close>

text \<open>
  \<^verbatim>\<open>self.local_variables\<close> is an attribute that exists only once a render method has
  been transpiled: \<open>None\<close> is the missing attribute.
\<close>

type_synonym locals = "(string \<times> string) list option"

definition is_local :: "locals \<Rightarrow> string \<Rightarrow> bool" where
  "is_local lv var_name = (case lv of None \<Rightarrow> False | Some d \<Rightarrow> dict_has (=) var_name d)"

text \<open>The test \<^verbatim>\<open>node.value\<close> is \<^verbatim>\<open>self.<attr>\<close>.\<close>

fun is_self_attr :: "string \<Rightarrow> expr \<Rightarrow> bool" where
  "is_self_attr a (Attribute (Name n) attr) = (n = ''self'' \<and> attr = a)"
| "is_self_attr a _ = False"

text \<open>\<^verbatim>\<open>_transpile_subscript\<close>, on the value and the slice of the subscript node.\<close>

definition transpile_subscript :: "expr \<Rightarrow> expr \<Rightarrow> string" where
  "transpile_subscript v slice =
     (if is_self_attr ''state'' v then
        (case slice of Constant key \<Rightarrow> ''state.'' @ py_text key | _ \<Rightarrow> ''null'')
      else ''null'')"

text \<open>The text of a constant in \<^verbatim>\<open>_transpile_expression\<close>.\<close>

fun transpile_constant :: "py_value \<Rightarrow> string" where
  "transpile_constant (CStr s) = dq # s @ [dq]"
| "transpile_constant (CBool b) = (if b then ''true'' else ''false'')"
| "transpile_constant c = py_text c"

text \<open>
  \<^verbatim>\<open>_transpile_expression\<close> with the helpers it dispatches to, which call it back:
  \<^verbatim>\<open>_transpile_dict_literal\<close>, \<^verbatim>\<open>_transpile_attribute_access\<close>,
  \<^verbatim>\<open>_transpile_binary_operation\<close>, \<^verbatim>\<open>_transpile_f_string\<close> and
  \<^verbatim>\<open>_transpile_function_call\<close> are the right-hand sides of their node kinds.
  A missing node (\<^verbatim>\<open>None\<close>) is of no kind the code tests for.
\<close>

fun transpile_expression :: "locals \<Rightarrow> expr \<Rightarrow> string" where
  "transpile_expression lv (Dict kvs) =
     ''{'' @ join '', ''
       (map (\<lambda>(key, val).
              (case key of None \<Rightarrow> ''null'' | Some k \<Rightarrow> transpile_expression lv k)
                @ '': '' @ transpile_expression lv val) kvs) @ ''}''"
| "transpile_expression lv (Constant c) = transpile_constant c"
| "transpile_expression lv (Name n) = n"
| "transpile_expression lv (Attribute v attr) =
     (if is_self_attr ''state'' (Attribute v attr) then ''state''
      else transpile_expression lv v @ ''.'' @ attr)"
| "transpile_expression lv (BinOp l op r) =
     (let left = transpile_expression lv l;
          right = transpile_expression lv r;
          left = (case l of
                    Subscript v slice \<Rightarrow>
                      if is_self_attr ''state'' v then transpile_subscript v slice else left
                  | _ \<Rightarrow> left)
      in case op of
           Add \<Rightarrow> left @ '' + '' @ right
         | Sub \<Rightarrow> left @ '' - '' @ right
         | Mult \<Rightarrow> left @ '' * '' @ right
         | Div \<Rightarrow> left @ '' / '' @ right
         | OtherOp k \<Rightarrow> left @ '' '' @ right)"
| "transpile_expression lv (JoinedStr parts) =
     ''`'' @ concat
       (map (\<lambda>part. case part of
               Literal s \<Rightarrow> s
             | FormattedValue e \<Rightarrow>
                 (case e of
                    Name var_name \<Rightarrow>
                      if is_local lv var_name then ''${'' @ var_name @ ''}''
                      else ''${'' @ transpile_expression lv e @ ''}''
                  | Subscript v slice \<Rightarrow>
                      (let expr_js = transpile_expression lv e;
                           expr_js = transpile_subscript v slice
                       in ''${'' @ expr_js @ ''}'')
                  | _ \<Rightarrow> ''${'' @ transpile_expression lv e @ ''}'')) parts) @ ''`''"
| "transpile_expression lv (Call f args kws) =
     (case f of
        Name func_name \<Rightarrow>
          func_name @ ''('' @ join '', '' (map (transpile_expression lv) args) @ '')''
      | Attribute obj method_name \<Rightarrow>
          (let obj_js = transpile_expression lv obj;
               args_js = map (transpile_expression lv) args
           in if is_self_attr ''props'' obj \<and> method_name = ''get'' \<and> length args_js = 2 then
                (let key_arg = strip [dq, sq] (args_js ! 0);
                     default_arg = args_js ! 1
                 in ''(props.'' @ key_arg @ '' || '' @ default_arg @ '')'')
              else obj_js @ ''.'' @ method_name @ ''('' @ join '', '' args_js @ '')'')
      | _ \<Rightarrow> ''null'')"
| "transpile_expression lv (Subscript v slice) = transpile_subscript v slice"
| "transpile_expression lv (ListLit es) = ''null''"
| "transpile_expression lv (OtherExpr k) = ''null''"

definition transpile_expression_opt :: "locals \<Rightarrow> expr option \<Rightarrow> string" where
  "transpile_expression_opt lv node =
     (case node of None \<Rightarrow> ''null'' | Some e \<Rightarrow> transpile_expression lv e)"

section \<open>Element-call transpiler\<close>

definition html_elements :: "string list" where
  "html_elements =
     [''div'', ''h1'', ''h2'', ''h3'', ''p'', ''span'', ''button'', ''input_field'', ''a'',
      ''ul'', ''ol'', ''li'', ''form'', ''label'', ''select'', ''option'', ''textarea'',
      ''br'', ''hr'', ''img'']"

text \<open>\<^verbatim>\<open>_transpile_prop_value\<close>: a reference \<^verbatim>\<open>self.method\<close> gives the method's name.\<close>

fun transpile_prop_value :: "locals \<Rightarrow> expr \<Rightarrow> string" where
  "transpile_prop_value lv (Attribute (Name n) attr) =
     (if n = ''self'' then attr else transpile_expression lv (Attribute (Name n) attr))"
| "transpile_prop_value lv value_node = transpile_expression lv value_node"

definition rename_prop :: "string option \<Rightarrow> string option" where
  "rename_prop prop_name =
     (if prop_name = Some ''onclick'' then Some ''onClick''
      else if prop_name = Some ''onchange'' then Some ''onChange''
      else if prop_name = Some ''onsubmit'' then Some ''onSubmit''
      else prop_name)"

text \<open>The loop over \<^verbatim>\<open>call_node.keywords\<close>, filling the dictionary \<^verbatim>\<open>props\<close>.\<close>

fun collect_props ::
  "locals \<Rightarrow> (string option \<times> string) list \<Rightarrow> (string option \<times> expr) list
     \<Rightarrow> (string option \<times> string) list" where
  "collect_props lv props [] = props"
| "collect_props lv props ((arg, val) # keywords) =
     collect_props lv (dict_set (=) (rename_prop arg) (transpile_prop_value lv val) props) keywords"

text \<open>A keyword without a name is the key \<^verbatim>\<open>None\<close>, which an f-string prints so.\<close>

definition prop_key_str :: "string option \<Rightarrow> string" where
  "prop_key_str key = (case key of None \<Rightarrow> ''None'' | Some k \<Rightarrow> k)"

definition build_props_object :: "(string option \<times> string) list \<Rightarrow> string" where
  "build_props_object props_dict =
     (if props_dict = [] then ''null''
      else ''{'' @ join '', '' (map (\<lambda>(key, val). prop_key_str key @ '': '' @ val) props_dict)
             @ ''}'')"

text \<open>
  \<^verbatim>\<open>_transpile_element_expression\<close> and \<^verbatim>\<open>_transpile_element_call\<close>, the latter on the
  callee, the arguments and the keywords of the call node.
\<close>

fun transpile_element_expression :: "locals \<Rightarrow> expr \<Rightarrow> string"
  and transpile_element_call ::
    "locals \<Rightarrow> expr \<Rightarrow> expr list \<Rightarrow> (string option \<times> expr) list \<Rightarrow> string"
where
  "transpile_element_expression lv (Call f args kws) = transpile_element_call lv f args kws"
| "transpile_element_expression lv (Dict kvs) = transpile_expression lv (Dict kvs)"
| "transpile_element_expression lv (Constant c) = transpile_expression lv (Constant c)"
| "transpile_element_expression lv (Name n) = transpile_expression lv (Name n)"
| "transpile_element_expression lv (Attribute v a) = transpile_expression lv (Attribute v a)"
| "transpile_element_expression lv (BinOp l op r) = transpile_expression lv (BinOp l op r)"
| "transpile_element_expression lv (JoinedStr ps) = transpile_expression lv (JoinedStr ps)"
| "transpile_element_expression lv (Subscript v s) = transpile_expression lv (Subscript v s)"
| "transpile_element_expression lv (ListLit es) = transpile_expression lv (ListLit es)"
| "transpile_element_expression lv (OtherExpr k) = transpile_expression lv (OtherExpr k)"
| "transpile_element_call lv f args kws =
     (case f of
        Name element_name \<Rightarrow>
          if element_name \<in> set html_elements then
            (let tag_name = (if element_name = ''input_field'' then ''input'' else element_name);
                 children =
                   map (\<lambda>arg. case arg of
                          Constant c \<Rightarrow>
                            (case c of
                               CStr s \<Rightarrow> dq # s @ [dq]
                             | _ \<Rightarrow> transpile_element_expression lv arg)
                        | _ \<Rightarrow> transpile_element_expression lv arg) args;
                 props = collect_props lv [] kws;
                 props_str = (if props \<noteq> [] then build_props_object props else ''null'')
             in if children \<noteq> [] then
                  ''React.createElement('' @ [sq] @ tag_name @ [sq] @ '', '' @ props_str
                    @ '', ['' @ join '', '' children @ ''])''
                else
                  ''React.createElement('' @ [sq] @ tag_name @ [sq] @ '', '' @ props_str @ '')'')
          else ''null''
      | _ \<Rightarrow> ''null'')"

definition transpile_element_expression_opt :: "locals \<Rightarrow> expr option \<Rightarrow> string" where
  "transpile_element_expression_opt lv node =
     (case node of None \<Rightarrow> transpile_expression_opt lv None
      | Some e \<Rightarrow> transpile_element_expression lv e)"

section \<open>Statement transpiler\<close>

text \<open>\<^verbatim>\<open>_transpile_method_call\<close>, on the callee and the arguments of the call node.\<close>

definition transpile_method_call :: "locals \<Rightarrow> expr \<Rightarrow> expr list \<Rightarrow> string" where
  "transpile_method_call lv func args =
     (if is_self_attr ''set_state'' func then
        (case args of
           [] \<Rightarrow> []
         | a # _ \<Rightarrow>
             ''setState(prevState => ({...prevState, ...'' @ transpile_expression lv a @ ''}));'')
      else [])"

definition transpile_assignment :: "expr list \<Rightarrow> expr \<Rightarrow> string" where
  "transpile_assignment targets val = []"

fun transpile_statement :: "locals \<Rightarrow> stmt \<Rightarrow> string" where
  "transpile_statement lv (Expr v) =
     (case v of Call f args kws \<Rightarrow> transpile_method_call lv f args | _ \<Rightarrow> [])"
| "transpile_statement lv (Assign targets val) = transpile_assignment targets val"
| "transpile_statement lv (Return v) = ''return '' @ transpile_expression_opt lv v @ '';''"
| "transpile_statement lv (FunctionDef n a b) = []"
| "transpile_statement lv (ClassDef n b) = []"
| "transpile_statement lv (OtherStmt k b) = []"

section \<open>Component analyzer\<close>

text \<open>The dictionary that \<^verbatim>\<open>_analyze_method\<close> returns (its \<^verbatim>\<open>ast_node\<close> entry is never read).\<close>

record method_info =
  m_name :: string
  m_args :: "string list"
  m_body :: "stmt list"

definition analyze_method :: "string \<Rightarrow> string list \<Rightarrow> stmt list \<Rightarrow> method_info" where
  "analyze_method n a b = \<lparr>m_name = n, m_args = a, m_body = b\<rparr>"

text \<open>\<^verbatim>\<open>_ast_to_js_value\<close>; a missing node is of none of the kinds tested.\<close>

fun ast_to_js_value :: "expr \<Rightarrow> string" where
  "ast_to_js_value (Constant c) = transpile_constant c"
| "ast_to_js_value (ListLit elts) = ''['' @ join '', '' (map ast_to_js_value elts) @ '']''"
| "ast_to_js_value (Dict kvs) =
     ''{'' @ join '', ''
       (map (\<lambda>(key, val).
              (case key of None \<Rightarrow> ''null'' | Some k \<Rightarrow> ast_to_js_value k)
                @ '': '' @ ast_to_js_value val) kvs) @ ''}''"
| "ast_to_js_value (Name n) = ''null''"
| "ast_to_js_value (Attribute v a) = ''null''"
| "ast_to_js_value (BinOp l op r) = ''null''"
| "ast_to_js_value (JoinedStr ps) = ''null''"
| "ast_to_js_value (Call f args kws) = ''null''"
| "ast_to_js_value (Subscript v s) = ''null''"
| "ast_to_js_value (OtherExpr k) = ''null''"

text \<open>
  \<^verbatim>\<open>_extract_initial_state\<close>: three nested loops, over the statements of the constructor,
  over the targets of an assignment, and over the entries of the dictionary literal.
  The state is a dictionary from Python values to Python values; what
  \<^verbatim>\<open>_ast_to_js_value\<close> returns is stored as a string.
\<close>

type_synonym state_dict = "(py_value \<times> py_value) list"

fun extract_entries :: "state_dict \<Rightarrow> (expr option \<times> expr) list \<Rightarrow> state_dict" where
  "extract_entries initial_state [] = initial_state"
| "extract_entries initial_state ((key, val) # kvs) =
     extract_entries
       (case key of
          Some (Constant k) \<Rightarrow>
            (case val of
               Constant v \<Rightarrow> dict_set py_eq k v initial_state
             | _ \<Rightarrow> dict_set py_eq k (CStr (ast_to_js_value val)) initial_state)
        | _ \<Rightarrow> initial_state) kvs"

fun extract_targets :: "state_dict \<Rightarrow> expr \<Rightarrow> expr list \<Rightarrow> state_dict" where
  "extract_targets initial_state val [] = initial_state"
| "extract_targets initial_state val (target # targets) =
     extract_targets
       (if is_self_attr ''state'' target then
          (case val of Dict kvs \<Rightarrow> extract_entries initial_state kvs | _ \<Rightarrow> initial_state)
        else initial_state) val targets"

fun extract_stmts :: "state_dict \<Rightarrow> stmt list \<Rightarrow> state_dict" where
  "extract_stmts initial_state [] = initial_state"
| "extract_stmts initial_state (stmt # body) =
     extract_stmts
       (case stmt of
          Assign targets val \<Rightarrow> extract_targets initial_state val targets
        | _ \<Rightarrow> initial_state) body"

definition extract_initial_state :: "stmt list \<Rightarrow> state_dict" where
  "extract_initial_state init_body = extract_stmts [] init_body"

record component_info =
  c_name :: string
  methods :: "(string \<times> method_info) list"
  init_method :: "method_info option"
  render_method :: "method_info option"
  initial_state :: state_dict

text \<open>\<^verbatim>\<open>_analyze_component_class\<close>: the loop over the body of the class.\<close>

fun analyze_body :: "component_info \<Rightarrow> stmt list \<Rightarrow> component_info" where
  "analyze_body info [] = info"
| "analyze_body info (node # body) =
     analyze_body
       (case node of
          FunctionDef n a b \<Rightarrow>
            (let method = analyze_method n a b;
                 info = info\<lparr>methods := dict_set (=) n method (methods info)\<rparr>
             in if n = ''__init__'' then
                  info\<lparr>init_method := Some method, initial_state := extract_initial_state b\<rparr>
                else if n = ''render'' then info\<lparr>render_method := Some method\<rparr>
                else info)
        | _ \<Rightarrow> info) body"

definition analyze_component_class :: "string \<Rightarrow> stmt list \<Rightarrow> component_info" where
  "analyze_component_class cname body =
     analyze_body
       \<lparr>c_name = cname, methods = [], init_method = None, render_method = None,
        initial_state = []\<rparr> body"

section \<open>Emitter\<close>

text \<open>\<^verbatim>\<open>_transpile_method_to_js\<close>; \<open>None\<close> for a lifecycle method.\<close>

definition transpile_method_to_js :: "locals \<Rightarrow> method_info \<Rightarrow> string option" where
  "transpile_method_to_js lv method =
     (if m_name method \<in> {''component_did_mount'', ''component_will_unmount'',
                           ''should_component_update''} then None
      else Some (join [nl]
             ([''const '' @ m_name method @ '' = () => {'']
              @ map (\<lambda>js_stmt. ''    '' @ js_stmt)
                  (filter (\<lambda>js_stmt. js_stmt \<noteq> []) (map (transpile_statement lv) (m_body method)))
              @ [''  };''])))"

text \<open>
  \<^verbatim>\<open>_transpile_render_assignment\<close>, on the targets and the value of the assignment and on
  the dictionary \<^verbatim>\<open>self.local_variables\<close>, which it returns updated.
\<close>

fun transpile_render_assignment ::
  "(string \<times> string) list \<Rightarrow> expr list \<Rightarrow> expr \<Rightarrow> string option \<times> (string \<times> string) list" where
  "transpile_render_assignment d [Name var_name] val =
     (let value_js = transpile_expression (Some d) val
      in (Some (''const '' @ var_name @ '' = '' @ value_js), dict_set (=) var_name value_js d))"
| "transpile_render_assignment d targets val = (None, d)"

text \<open>
  The loop of \<^verbatim>\<open>_transpile_render_method\<close> over the render body. Its state is the
  dictionary of local variables, the list \<^verbatim>\<open>js_statements\<close> and \<^verbatim>\<open>return_statement\<close>,
  kept as the value of the return statement seen last (itself missing for a bare
  \<^verbatim>\<open>return\<close>).
\<close>

fun render_loop ::
  "(string \<times> string) list \<Rightarrow> string list \<Rightarrow> expr option option \<Rightarrow> stmt list
     \<Rightarrow> (string \<times> string) list \<times> string list \<times> expr option option" where
  "render_loop d js_statements return_statement [] = (d, js_statements, return_statement)"
| "render_loop d js_statements return_statement (stmt # body) =
     (case stmt of
        Return v \<Rightarrow> render_loop d js_statements (Some v) body
      | Assign targets val \<Rightarrow>
          (case transpile_render_assignment d targets val of
             (Some js_assign, d') \<Rightarrow> render_loop d' (js_statements @ [js_assign]) return_statement body
           | (None, d') \<Rightarrow> render_loop d' js_statements return_statement body)
      | _ \<Rightarrow> render_loop d js_statements return_statement body)"

text \<open>\<^verbatim>\<open>_transpile_render_method\<close>: the text and the local variables it leaves behind.\<close>

definition transpile_render_method :: "stmt list \<Rightarrow> string \<times> locals" where
  "transpile_render_method render_body =
     (case render_loop [] [] None render_body of
        (d, js_statements, return_statement) \<Rightarrow>
          (case return_statement of
             Some v \<Rightarrow>
               if js_statements \<noteq> [] then
                 (let statements_str = join ''; '' js_statements;
                      return_expr = transpile_element_expression_opt (Some d) v
                  in ''(() => { '' @ statements_str @ ''; return '' @ return_expr @ ''; })()'')
               else transpile_element_expression_opt (Some d) v
           | None \<Rightarrow> ''null'',
           Some d))"

text \<open>\<^verbatim>\<open>_dict_to_js_object\<close>\<close>

definition dict_to_js_object :: "state_dict \<Rightarrow> string" where
  "dict_to_js_object python_dict =
     (if python_dict = [] then ''{}''
      else ''{'' @ join '', ''
             (map (\<lambda>(key, val).
                    case val of
                      CStr s \<Rightarrow> py_text key @ '': '' @ [dq] @ s @ [dq]
                    | CBool b \<Rightarrow> py_text key @ '': '' @ (if b then ''true'' else ''false'')
                    | _ \<Rightarrow> py_text key @ '': '' @ py_text val) python_dict) @ ''}'')"

text \<open>
  \<^verbatim>\<open>_generate_js_component\<close>: the lines of the function, in the four steps in which the
  code appends them, and the local variables left behind by the render method.
\<close>

definition state_hook_lines :: "state_dict \<Rightarrow> string list" where
  "state_hook_lines st =
     (if st \<noteq> [] then
        [''  const [state, setState] = React.useState('' @ dict_to_js_object st @ '');'', []]
      else [])"

definition method_lines :: "locals \<Rightarrow> (string \<times> method_info) list \<Rightarrow> string list" where
  "method_lines lv ms =
     concat (map (\<lambda>(method_name, method).
                if method_name \<notin> {''__init__'', ''render''} then
                  (case transpile_method_to_js lv method of
                     Some method_js \<Rightarrow> [''  '' @ method_js, []]
                   | None \<Rightarrow> [])
                else []) ms)"

definition render_lines :: "locals \<Rightarrow> method_info option \<Rightarrow> string list \<times> locals" where
  "render_lines lv render =
     (case render of
        Some method \<Rightarrow>
          (case transpile_render_method (m_body method) of
             (render_js, lv') \<Rightarrow> ([''  return '' @ render_js @ '';''], lv'))
      | None \<Rightarrow> ([''  return null;''], lv))"

definition generate_js_component :: "locals \<Rightarrow> component_info \<Rightarrow> string \<times> locals" where
  "generate_js_component lv info =
     (case render_lines lv (render_method info) of
        (rlines, lv') \<Rightarrow>
          (join [nl]
             ([''function '' @ c_name info @ ''(props) {'']
              @ state_hook_lines (initial_state info)
              @ method_lines lv (methods info)
              @ rlines
              @ [''}'']),
           lv'))"

section \<open>When a conversion raises\<close>

text \<open>
  The conversions of a value to text are \<^verbatim>\<open>str(expr.value)\<close> in
  \<^verbatim>\<open>_transpile_expression\<close> and \<^verbatim>\<open>_ast_to_js_value\<close>, the key in the f-string of
  \<^verbatim>\<open>_transpile_subscript\<close>, and the key and the value in the f-strings of
  \<^verbatim>\<open>_dict_to_js_object\<close>. Each function below follows the calls of the function it is
  named after and is true when one of the conversions that the code reaches raises. All
  of them raise the same error, so their order does not matter.

  A name raises in neither branch of the f-string rule, so these functions do not read
  the local variables.
\<close>

definition subscript_raises :: "expr \<Rightarrow> expr \<Rightarrow> bool" where
  "subscript_raises v slice =
     (is_self_attr ''state'' v \<and> (case slice of Constant key \<Rightarrow> str_raises key | _ \<Rightarrow> False))"

fun expression_raises :: "expr \<Rightarrow> bool" where
  "expression_raises (Dict kvs) =
     list_ex (\<lambda>(key, val).
                (case key of None \<Rightarrow> False | Some k \<Rightarrow> expression_raises k)
                \<or> expression_raises val) kvs"
| "expression_raises (Constant c) = str_raises c"
| "expression_raises (Name n) = False"
| "expression_raises (Attribute v attr) =
     (if is_self_attr ''state'' (Attribute v attr) then False else expression_raises v)"
| "expression_raises (BinOp l op r) =
     (expression_raises l \<or> expression_raises r
      \<or> (case l of
            Subscript v slice \<Rightarrow> is_self_attr ''state'' v \<and> subscript_raises v slice
          | _ \<Rightarrow> False))"
| "expression_raises (JoinedStr parts) =
     list_ex (\<lambda>part. case part of
                Literal s \<Rightarrow> False
              | FormattedValue e \<Rightarrow>
                  (case e of
                     Name var_name \<Rightarrow> False
                   | Subscript v slice \<Rightarrow> expression_raises e \<or> subscript_raises v slice
                   | _ \<Rightarrow> expression_raises e)) parts"
| "expression_raises (Call f args kws) =
     (case f of
        Name func_name \<Rightarrow> list_ex expression_raises args
      | Attribute obj method_name \<Rightarrow> expression_raises obj \<or> list_ex expression_raises args
      | _ \<Rightarrow> False)"
| "expression_raises (Subscript v slice) = subscript_raises v slice"
| "expression_raises (ListLit es) = False"
| "expression_raises (OtherExpr k) = False"

definition expression_opt_raises :: "expr option \<Rightarrow> bool" where
  "expression_opt_raises node = (case node of None \<Rightarrow> False | Some e \<Rightarrow> expression_raises e)"

fun prop_value_raises :: "expr \<Rightarrow> bool" where
  "prop_value_raises (Attribute (Name n) attr) =
     (if n = ''self'' then False else expression_raises (Attribute (Name n) attr))"
| "prop_value_raises value_node = expression_raises value_node"

fun element_expression_raises :: "expr \<Rightarrow> bool"
  and element_call_raises :: "expr \<Rightarrow> expr list \<Rightarrow> (string option \<times> expr) list \<Rightarrow> bool"
where
  "element_expression_raises (Call f args kws) = element_call_raises f args kws"
| "element_expression_raises (Dict kvs) = expression_raises (Dict kvs)"
| "element_expression_raises (Constant c) = expression_raises (Constant c)"
| "element_expression_raises (Name n) = expression_raises (Name n)"
| "element_expression_raises (Attribute v a) = expression_raises (Attribute v a)"
| "element_expression_raises (BinOp l op r) = expression_raises (BinOp l op r)"
| "element_expression_raises (JoinedStr ps) = expression_raises (JoinedStr ps)"
| "element_expression_raises (Subscript v s) = expression_raises (Subscript v s)"
| "element_expression_raises (ListLit es) = expression_raises (ListLit es)"
| "element_expression_raises (OtherExpr k) = expression_raises (OtherExpr k)"
| "element_call_raises f args kws =
     (case f of
        Name element_name \<Rightarrow>
          if element_name \<in> set html_elements then
            list_ex (\<lambda>arg. case arg of
                       Constant c \<Rightarrow>
                         (case c of
                            CStr s \<Rightarrow> False
                          | _ \<Rightarrow> element_expression_raises arg)
                     | _ \<Rightarrow> element_expression_raises arg) args
            \<or> list_ex (\<lambda>(arg, val). prop_value_raises val) kws
          else False
      | _ \<Rightarrow> False)"

definition element_expression_opt_raises :: "expr option \<Rightarrow> bool" where
  "element_expression_opt_raises node =
     (case node of None \<Rightarrow> False | Some e \<Rightarrow> element_expression_raises e)"

definition method_call_raises :: "expr \<Rightarrow> expr list \<Rightarrow> bool" where
  "method_call_raises func args =
     (is_self_attr ''set_state'' func
      \<and> (case args of [] \<Rightarrow> False | a # _ \<Rightarrow> expression_raises a))"

fun statement_raises :: "stmt \<Rightarrow> bool" where
  "statement_raises (Expr v) =
     (case v of Call f args kws \<Rightarrow> method_call_raises f args | _ \<Rightarrow> False)"
| "statement_raises (Assign targets val) = False"
| "statement_raises (Return v) = expression_opt_raises v"
| "statement_raises (FunctionDef n a b) = False"
| "statement_raises (ClassDef n b) = False"
| "statement_raises (OtherStmt k b) = False"

definition method_to_js_raises :: "method_info \<Rightarrow> bool" where
  "method_to_js_raises meth =
     (m_name meth \<notin> {''component_did_mount'', ''component_will_unmount'',
                        ''should_component_update''}
      \<and> list_ex statement_raises (m_body meth))"

fun ast_to_js_value_raises :: "expr \<Rightarrow> bool" where
  "ast_to_js_value_raises (Constant c) = str_raises c"
| "ast_to_js_value_raises (ListLit elts) = list_ex ast_to_js_value_raises elts"
| "ast_to_js_value_raises (Dict kvs) =
     list_ex (\<lambda>(key, val).
                (case key of None \<Rightarrow> False | Some k \<Rightarrow> ast_to_js_value_raises k)
                \<or> ast_to_js_value_raises val) kvs"
| "ast_to_js_value_raises (Name n) = False"
| "ast_to_js_value_raises (Attribute v a) = False"
| "ast_to_js_value_raises (BinOp l op r) = False"
| "ast_to_js_value_raises (JoinedStr ps) = False"
| "ast_to_js_value_raises (Call f args kws) = False"
| "ast_to_js_value_raises (Subscript v s) = False"
| "ast_to_js_value_raises (OtherExpr k) = False"

text \<open>
  \<^verbatim>\<open>_extract_initial_state\<close> converts nothing but the values that are not constants,
  through \<^verbatim>\<open>_ast_to_js_value\<close>; \<^verbatim>\<open>_analyze_component_class\<close> runs it on every
  constructor that it meets.
\<close>

definition extract_entries_raises :: "(expr option \<times> expr) list \<Rightarrow> bool" where
  "extract_entries_raises kvs =
     list_ex (\<lambda>(key, val).
                case key of
                  Some (Constant k) \<Rightarrow>
                    (case val of Constant v \<Rightarrow> False | _ \<Rightarrow> ast_to_js_value_raises val)
                | _ \<Rightarrow> False) kvs"

definition extract_initial_state_raises :: "stmt list \<Rightarrow> bool" where
  "extract_initial_state_raises init_body =
     list_ex (\<lambda>stmt. case stmt of
                Assign targets val \<Rightarrow>
                  list_ex (\<lambda>target. is_self_attr ''state'' target
                             \<and> (case val of Dict kvs \<Rightarrow> extract_entries_raises kvs
                                 | _ \<Rightarrow> False)) targets
              | _ \<Rightarrow> False) init_body"

definition analyze_component_class_raises :: "stmt list \<Rightarrow> bool" where
  "analyze_component_class_raises body =
     list_ex (\<lambda>node. case node of
                FunctionDef n a b \<Rightarrow> n = ''__init__'' \<and> extract_initial_state_raises b
              | _ \<Rightarrow> False) body"

definition dict_to_js_object_raises :: "state_dict \<Rightarrow> bool" where
  "dict_to_js_object_raises python_dict =
     list_ex (\<lambda>(key, val).
                case val of
                  CStr s \<Rightarrow> str_raises key
                | CBool b \<Rightarrow> str_raises key
                | _ \<Rightarrow> str_raises key \<or> str_raises val) python_dict"

text \<open>
  The render method sets \<^verbatim>\<open>self.local_variables\<close> to an empty dictionary and fills it
  while it goes through the body, so a conversion that raises there leaves the
  dictionary as it is at that moment. \<open>render_failure\<close> follows the loop and then the
  transpilation of the last return statement: it is that dictionary when a conversion
  raises, and \<open>None\<close> when none does.
\<close>

definition render_assignment_raises :: "expr list \<Rightarrow> expr \<Rightarrow> bool" where
  "render_assignment_raises targets val =
     (case targets of
        [Name var_name] \<Rightarrow> expression_raises val
      | _ \<Rightarrow> False)"

fun render_failure ::
  "(string \<times> string) list \<Rightarrow> expr option option \<Rightarrow> stmt list \<Rightarrow> (string \<times> string) list option"
where
  "render_failure d return_statement [] =
     (case return_statement of
        Some v \<Rightarrow> if element_expression_opt_raises v then Some d else None
      | None \<Rightarrow> None)"
| "render_failure d return_statement (stmt # body) =
     (case stmt of
        Return v \<Rightarrow> render_failure d (Some v) body
      | Assign targets val \<Rightarrow>
          if render_assignment_raises targets val then Some d
          else render_failure (snd (transpile_render_assignment d targets val))
                 return_statement body
      | _ \<Rightarrow> render_failure d return_statement body)"

text \<open>
  \<^verbatim>\<open>_generate_js_component\<close>: the state hook, then the methods, then the render method.
  The result is the value of \<^verbatim>\<open>self.local_variables\<close> when a conversion raises, and
  \<open>None\<close> when none does.
\<close>

definition generate_failure :: "locals \<Rightarrow> component_info \<Rightarrow> locals option" where
  "generate_failure lv info =
     (if initial_state info \<noteq> [] \<and> dict_to_js_object_raises (initial_state info) then Some lv
      else if list_ex (\<lambda>(method_name, meth).
                         method_name \<notin> {''__init__'', ''render''} \<and> method_to_js_raises meth)
                (methods info) then Some lv
      else (case render_method info of
              Some meth \<Rightarrow> map_option Some (render_failure [] None (m_body meth))
            | None \<Rightarrow> None))"

section \<open>The transpiler object\<close>

text \<open>
  The attributes of a \<^verbatim>\<open>PyReactTranspiler\<close>: the registry \<^verbatim>\<open>components\<close> (a dictionary
  from component name to emitted text), \<^verbatim>\<open>js_output\<close>, and \<^verbatim>\<open>local_variables\<close>, which
  \<^verbatim>\<open>__init__\<close> does not create.
\<close>

record transpiler =
  components :: "(string \<times> string) list"
  js_output :: "string list"
  local_variables :: locals

definition new_transpiler :: transpiler where
  "new_transpiler = \<lparr>components = [], js_output = [], local_variables = None\<rparr>"

text \<open>
  What \<^verbatim>\<open>transpile_component\<close> reads of its argument: the name of the class and the tree
  that the parser gives for its source text (the body of the module node). Reading the
  source text and parsing it are the work of \<^verbatim>\<open>inspect\<close> and \<^verbatim>\<open>ast\<close>; the model starts
  from the tree.
\<close>

record component_class =
  cls_name :: string
  cls_tree :: "stmt list"

text \<open>
  \<^verbatim>\<open>ast.walk\<close> visits the nodes breadth first: it takes the first node of a queue and
  puts the node's children at the end of the queue. Only statements can hold a class
  declaration, so the queue holds the statements.
\<close>

fun child_nodes :: "stmt \<Rightarrow> stmt list" where
  "child_nodes (FunctionDef n a b) = b"
| "child_nodes (ClassDef n b) = b"
| "child_nodes (OtherStmt k b) = b"
| "child_nodes (Assign targets val) = []"
| "child_nodes (Return v) = []"
| "child_nodes (Expr v) = []"

fun node_count :: "stmt \<Rightarrow> nat" where
  "node_count (FunctionDef n a b) = Suc (sum_list (map node_count b))"
| "node_count (ClassDef n b) = Suc (sum_list (map node_count b))"
| "node_count (OtherStmt k b) = Suc (sum_list (map node_count b))"
| "node_count (Assign targets val) = 1"
| "node_count (Return v) = 1"
| "node_count (Expr v) = 1"

function walk :: "stmt list \<Rightarrow> stmt list" where
  "walk [] = []"
| "walk (node # todo) = node # walk (todo @ child_nodes node)"
  by pat_completeness auto
termination
proof (relation "measure (\<lambda>todo. sum_list (map node_count todo))")
  fix node :: stmt and todo :: "stmt list"
  show "(todo @ child_nodes node, node # todo)
          \<in> measure (\<lambda>todo. sum_list (map node_count todo))"
    by (cases node) simp_all
qed simp

text \<open>
  The search of \<^verbatim>\<open>transpile_component\<close> for the class declaration: the first class node
  of that name in the order of the walk, as its name and body.
\<close>

fun first_class_def :: "stmt list \<Rightarrow> string \<Rightarrow> (string \<times> stmt list) option" where
  "first_class_def [] cname = None"
| "first_class_def (node # nodes) cname =
     (case node of
        ClassDef n b \<Rightarrow> if n = cname then Some (n, b) else first_class_def nodes cname
      | _ \<Rightarrow> first_class_def nodes cname)"

definition find_class_def :: "stmt list \<Rightarrow> string \<Rightarrow> (string \<times> stmt list) option" where
  "find_class_def tree cname = first_class_def (walk tree) cname"

text \<open>
  \<^verbatim>\<open>transpile_component\<close> returns the emitted text or raises; in both cases the
  transpiler object is left in the state returned here. It raises when the class is not
  found, and when a conversion raises during the analysis of the class or during the
  generation of the text; the registry is written last.
\<close>

definition transpile_component ::
  "transpiler \<Rightarrow> component_class \<Rightarrow> (error + string) \<times> transpiler" where
  "transpile_component self cls =
     (case find_class_def (cls_tree cls) (cls_name cls) of
        None \<Rightarrow> (Inl (ValueError (''Could not find class definition for '' @ cls_name cls)), self)
      | Some (n, body) \<Rightarrow>
          if analyze_component_class_raises body then (Inl int_str_error, self)
          else
            (let component_info = analyze_component_class n body
             in case generate_failure (local_variables self) component_info of
                  Some lv \<Rightarrow> (Inl int_str_error, self\<lparr>local_variables := lv\<rparr>)
                | None \<Rightarrow>
                    (case generate_js_component (local_variables self) component_info of
                       (js_code, lv) \<Rightarrow>
                         (Inr js_code,
                          self\<lparr>components :=
                                 dict_set (=) (cls_name cls) js_code (components self),
                               local_variables := lv\<rparr>))))"

text \<open>\<^verbatim>\<open>generate_complete_js\<close>\<close>

definition generate_complete_js :: "transpiler \<Rightarrow> string" where
  "generate_complete_js self =
     (if components self = [] then ''// No components to transpile''
      else join [nl]
             ([''// PyReact - Transpiled Components'', []]
              @ concat (map (\<lambda>(component_name, component_code). [component_code, []])
                          (components self))))"

section \<open>The components of the example file\<close>

text \<open>
  The trees of the classes \<^verbatim>\<open>Counter\<close> and \<^verbatim>\<open>Greeting\<close> of \<^verbatim>\<open>src/example.py\<close>, as
  the parser gives them: a module with the one class, whose body starts with the
  documentation string.
\<close>

definition self_state :: "string \<Rightarrow> expr" where
  "self_state key = Subscript (Attribute (Name ''self'') ''state'') (Constant (CStr key))"

definition set_state_stmt :: "(expr option \<times> expr) list \<Rightarrow> stmt" where
  "set_state_stmt kvs = Expr (Call (Attribute (Name ''self'') ''set_state'') [Dict kvs] [])"

definition super_init :: stmt where
  "super_init =
     Expr (Call (Attribute (Call (Name ''super'') [] []) ''__init__'') [Name ''props''] [])"

definition button_call :: "string \<Rightarrow> string \<Rightarrow> expr" where
  "button_call txt handler =
     Call (Name ''button'') [Constant (CStr txt)]
       [(Some ''onclick'', Attribute (Name ''self'') handler)]"

definition counter_tree :: "stmt list" where
  "counter_tree =
     [ClassDef ''Counter''
        [Expr (Constant (CStr
           ''A simple counter component that demonstrates state management and event handling.'')),
         FunctionDef ''__init__'' [''self'', ''props'']
           [super_init,
            Assign [Attribute (Name ''self'') ''state'']
              (Dict [(Some (Constant (CStr ''count'')), Constant (CInt 0))])],
         FunctionDef ''increment'' [''self'']
           [set_state_stmt
              [(Some (Constant (CStr ''count'')),
                BinOp (self_state ''count'') Add (Constant (CInt 1)))]],
         FunctionDef ''decrement'' [''self'']
           [set_state_stmt
              [(Some (Constant (CStr ''count'')),
                BinOp (self_state ''count'') Sub (Constant (CInt 1)))]],
         FunctionDef ''reset'' [''self'']
           [set_state_stmt [(Some (Constant (CStr ''count'')), Constant (CInt 0))]],
         FunctionDef ''render'' [''self'']
           [Return (Some
              (Call (Name ''div'')
                 [Call (Name ''h1'')
                    [JoinedStr [Literal ''Count: '', FormattedValue (self_state ''count'')]] [],
                  Call (Name ''div'')
                    [button_call ''Increment'' ''increment'',
                     button_call ''Decrement'' ''decrement'',
                     button_call ''Reset'' ''reset''] []] []))]]]"

definition greeting_tree :: "stmt list" where
  "greeting_tree =
     [ClassDef ''Greeting''
        [Expr (Constant (CStr ''A greeting component that demonstrates props usage.'')),
         FunctionDef ''__init__'' [''self'', ''props'']
           [super_init,
            Assign [Attribute (Name ''self'') ''state'']
              (Dict [(Some (Constant (CStr ''name'')), Constant (CStr ''World''))])],
         FunctionDef ''update_name'' [''self'']
           [set_state_stmt [(Some (Constant (CStr ''name'')), Constant (CStr ''PyReact User''))]],
         FunctionDef ''render'' [''self'']
           [Assign [Name ''name'']
              (Call (Attribute (Attribute (Name ''self'') ''props'') ''get'')
                 [Constant (CStr ''name''), self_state ''name''] []),
            Return (Some
              (Call (Name ''div'')
                 [Call (Name ''h2'')
                    [JoinedStr [Literal ''Hello, '', FormattedValue (Name ''name''), Literal ''!'']]
                    [],
                  Call (Name ''p'')
                    [Constant (CStr ''This is a greeting component built with PyReact.'')] [],
                  button_call ''Change Name'' ''update_name''] []))]]]"

section \<open>Notions of the specification\<close>

text \<open>
  The nodes of a tree, each node before the nodes below it. This is the specification's
  "exists in the supplied tree"; it does not depend on the order of the walk.
\<close>

fun subnodes :: "stmt \<Rightarrow> stmt list" where
  "subnodes (FunctionDef n a b) = FunctionDef n a b # concat (map subnodes b)"
| "subnodes (ClassDef n b) = ClassDef n b # concat (map subnodes b)"
| "subnodes (OtherStmt k b) = OtherStmt k b # concat (map subnodes b)"
| "subnodes (Assign targets val) = [Assign targets val]"
| "subnodes (Return v) = [Return v]"
| "subnodes (Expr v) = [Expr v]"

definition tree_nodes :: "stmt list \<Rightarrow> stmt list" where
  "tree_nodes tree = concat (map subnodes tree)"



text \<open>A run of the transpiler: one call of \<^verbatim>\<open>transpile_component\<close> after the other.\<close>

fun run :: "transpiler \<Rightarrow> component_class list \<Rightarrow> transpiler" where
  "run self [] = self"
| "run self (cls # calls) = run (snd (transpile_component self cls)) calls"

text \<open>The text that a call emits for a class (empty when the call fails).\<close>

definition emitted :: "component_class \<Rightarrow> string" where
  "emitted cls =
     (case fst (transpile_component new_transpiler cls) of Inr js_code \<Rightarrow> js_code | Inl e \<Rightarrow> [])"

text \<open>The names in the order in which they are seen first, after those seen before.\<close>

fun first_seen :: "string list \<Rightarrow> string list \<Rightarrow> string list" where
  "first_seen seen [] = seen"
| "first_seen seen (n # names) = first_seen (if n \<in> set seen then seen else seen @ [n]) names"

text \<open>The shapes of statements and expressions that the claims speak of.\<close>

fun is_return :: "stmt \<Rightarrow> bool" where
  "is_return (Return v) = True"
| "is_return _ = False"

text \<open>The value of the last return statement of a body, or \<open>ret\<close> when it has none.\<close>

fun last_return :: "expr option option \<Rightarrow> stmt list \<Rightarrow> expr option option" where
  "last_return ret [] = ret"
| "last_return ret (s # body) = last_return (case s of Return v \<Rightarrow> Some v | _ \<Rightarrow> ret) body"


fun is_init_def :: "stmt \<Rightarrow> bool" where
  "is_init_def (FunctionDef n a b) = (n = ''__init__'')"
| "is_init_def _ = False"

fun is_builder :: "expr \<Rightarrow> bool" where
  "is_builder (Name n) = (n \<in> set html_elements)"
| "is_builder _ = False"

fun is_state_literal_assign :: "stmt \<Rightarrow> bool" where
  "is_state_literal_assign (Assign targets (Dict kvs)) = (\<exists>t\<in>set targets. is_self_attr ''state'' t)"
| "is_state_literal_assign _ = False"

text \<open>A key that neither starts nor ends with a quote character.\<close>

definition quote_free_ends :: "string \<Rightarrow> bool" where
  "quote_free_ends key = (key = [] \<or> (hd key \<notin> {dq, sq} \<and> last key \<notin> {dq, sq}))"

text \<open>The call \<^verbatim>\<open>self.props.get(key, default)\<close> with a literal string key.\<close>

definition props_get :: "string \<Rightarrow> expr \<Rightarrow> (string option \<times> expr) list \<Rightarrow> expr" where
  "props_get key dflt kws =
     Call (Attribute (Attribute (Name ''self'') ''props'') ''get'') [Constant (CStr key), dflt] kws"


text \<open>A call that returns a text. (Whether it does is the same for every transpiler object.)\<close>

definition succeeds :: "component_class \<Rightarrow> bool" where
  "succeeds cls =
     (case fst (transpile_component new_transpiler cls) of Inr js_code \<Rightarrow> True | Inl e \<Rightarrow> False)"

text \<open>
  An expression, a statement without an integer constant that \<^verbatim>\<open>str()\<close> refuses to
  convert.
\<close>

fun expr_ints_ok :: "expr \<Rightarrow> bool" where
  "expr_ints_ok (Dict kvs) =
     list_all (\<lambda>(key, val).
                 (case key of None \<Rightarrow> True | Some k \<Rightarrow> expr_ints_ok k) \<and> expr_ints_ok val) kvs"
| "expr_ints_ok (Constant c) = (\<not> str_raises c)"
| "expr_ints_ok (Name n) = True"
| "expr_ints_ok (Attribute v attr) = expr_ints_ok v"
| "expr_ints_ok (BinOp l op r) = (expr_ints_ok l \<and> expr_ints_ok r)"
| "expr_ints_ok (JoinedStr parts) =
     list_all (\<lambda>part. case part of Literal s \<Rightarrow> True | FormattedValue e \<Rightarrow> expr_ints_ok e) parts"
| "expr_ints_ok (Call f args kws) =
     (expr_ints_ok f \<and> list_all expr_ints_ok args \<and> list_all (\<lambda>(arg, val). expr_ints_ok val) kws)"
| "expr_ints_ok (Subscript v slice) = (expr_ints_ok v \<and> expr_ints_ok slice)"
| "expr_ints_ok (ListLit es) = list_all expr_ints_ok es"
| "expr_ints_ok (OtherExpr k) = True"

fun stmt_ints_ok :: "stmt \<Rightarrow> bool" where
  "stmt_ints_ok (FunctionDef n a b) = list_all stmt_ints_ok b"
| "stmt_ints_ok (ClassDef n b) = list_all stmt_ints_ok b"
| "stmt_ints_ok (Assign targets val) = (list_all expr_ints_ok targets \<and> expr_ints_ok val)"
| "stmt_ints_ok (Return v) = (case v of None \<Rightarrow> True | Some e \<Rightarrow> expr_ints_ok e)"
| "stmt_ints_ok (Expr v) = expr_ints_ok v"
| "stmt_ints_ok (OtherStmt k b) = list_all stmt_ints_ok b"





section \<open>The class search\<close>

lemmas example_defs =
  counter_tree_def greeting_tree_def self_state_def set_state_stmt_def super_init_def
  button_call_def

lemma first_class_def_None:
  "first_class_def nodes cname = None \<longleftrightarrow> (\<forall>b. ClassDef cname b \<notin> set nodes)"
  by (induction nodes) (auto split: stmt.splits)

lemma first_class_def_Some:
  "first_class_def nodes cname = Some (n, b) \<Longrightarrow> n = cname \<and> ClassDef cname b \<in> set nodes"
  by (induction nodes) (auto split: stmt.splits if_splits)

lemma set_subnodes:
  "set (subnodes node) = insert node (\<Union>c\<in>set (child_nodes node). set (subnodes c))"
  by (cases node) auto

lemma set_walk: "set (walk todo) = (\<Union>node\<in>set todo. set (subnodes node))"
proof (induction todo rule: walk.induct)
  case 1
  show ?case by simp
next
  case (2 node todo)
  have "set (walk (node # todo)) = insert node (set (walk (todo @ child_nodes node)))"
    by simp
  also have "\<dots> = insert node
      ((\<Union>n\<in>set todo. set (subnodes n)) \<union> (\<Union>c\<in>set (child_nodes node). set (subnodes c)))"
    using 2 by (simp add: Un_commute)
  also have "\<dots> = (\<Union>n\<in>set (node # todo). set (subnodes n))"
    using set_subnodes [of node] by auto
  finally show ?case .
qed

lemma set_walk_tree_nodes: "set (walk tree) = set (tree_nodes tree)"
  by (simp add: set_walk tree_nodes_def)

lemma find_class_def_None:
  "find_class_def tree cname = None \<longleftrightarrow> (\<forall>b. ClassDef cname b \<notin> set (tree_nodes tree))"
  by (simp add: find_class_def_def first_class_def_None set_walk_tree_nodes)

section \<open>Integer constants within the limit\<close>

text \<open>
  An integer of one digit is converted, the integer \<open>10 ^ 4300\<close> is not. Where no
  integer constant is above the limit, no function of the transpiler raises.
\<close>

lemma small_int_str: "\<bar>i\<bar> < 10 \<Longrightarrow> str_int i = Inr (decimal i)"
proof -
  assume a: "\<bar>i\<bar> < 10"
  have "(10::int) ^ 1 \<le> 10 ^ max_str_digits"
    by (rule power_increasing) (simp_all add: max_str_digits_def)
  with a show ?thesis by (simp add: str_int_def)
qed

lemma py_text_str: "\<not> str_raises c \<Longrightarrow> py_str c = Inr (py_text c)"
  by (cases c) (auto simp: str_raises_def str_int_def split: if_splits)

lemma small_int_ok: "\<bar>i\<bar> < 10 \<Longrightarrow> \<not> str_raises (CInt i)"
  by (simp add: str_raises_def small_int_str)


lemma str_raises_simps:
  "\<not> str_raises (CStr s)" "\<not> str_raises (CBool b)" "\<not> str_raises CNone" "\<not> str_raises (COther v s)"
  by (simp_all add: str_raises_def)




lemma fpart_raises:
  "(case e of Name var_name \<Rightarrow> False
    | Subscript v slice \<Rightarrow> expression_raises e \<or> subscript_raises v slice
    | _ \<Rightarrow> expression_raises e) = expression_raises e"
  by (cases e) simp_all

lemma binop_raises:
  "expression_raises (BinOp l op r) = (expression_raises l \<or> expression_raises r)"
  by (cases l) auto

lemma callee_object_ok:
  "\<not> expression_raises (Attribute obj a) \<Longrightarrow> \<not> expression_raises obj"
  by (cases obj) (auto split: if_splits)

lemma expression_ok_aux: "expr_ints_ok e \<longrightarrow> \<not> expression_raises e"
proof (induction e rule: expr.induct
    [where ?P2.0 = "\<lambda>p. case p of Literal s \<Rightarrow> True
                          | FormattedValue e \<Rightarrow> expr_ints_ok e \<longrightarrow> \<not> expression_raises e"])
  case (Dict kvs)
  show ?case
  proof
    assume ok: "expr_ints_ok (Dict kvs)"
    show "\<not> expression_raises (Dict kvs)"
    proof
      assume "expression_raises (Dict kvs)"
      then obtain key val where kv: "(key, val) \<in> set kvs"
        and r: "(case key of None \<Rightarrow> False | Some k \<Rightarrow> expression_raises k) \<or> expression_raises val"
        by (auto simp: list_ex_iff)
      from ok kv have okk: "case key of None \<Rightarrow> True | Some k \<Rightarrow> expr_ints_ok k"
        and okv: "expr_ints_ok val"
        by (auto simp: list_all_iff)
      from r show False
      proof
        assume "case key of None \<Rightarrow> False | Some k \<Rightarrow> expression_raises k"
        then obtain k where k: "key = Some k" "expression_raises k"
          by (cases key) auto
        with okk have "expr_ints_ok k" by simp
        moreover have "expr_ints_ok k \<longrightarrow> \<not> expression_raises k"
          using Dict(1) [of "(key, val)" key k] kv k(1) by simp
        ultimately show False using k(2) by simp
      next
        assume "expression_raises val"
        moreover have "expr_ints_ok val \<longrightarrow> \<not> expression_raises val"
          using Dict(2) [of "(key, val)" val] kv by simp
        ultimately show False using okv by simp
      qed
    qed
  qed
next
  case (BinOp l op r)
  then show ?case by (simp only: binop_raises expr_ints_ok.simps) blast
next
  case (JoinedStr parts)
  show ?case
  proof
    assume ok: "expr_ints_ok (JoinedStr parts)"
    show "\<not> expression_raises (JoinedStr parts)"
    proof
      assume "expression_raises (JoinedStr parts)"
      then obtain p where p: "p \<in> set parts"
        and r: "case p of Literal s \<Rightarrow> False | FormattedValue e \<Rightarrow> expression_raises e"
        by (auto simp: list_ex_iff fpart_raises)
      from r obtain e where e: "p = FormattedValue e" "expression_raises e"
        by (cases p) auto
      from ok p e(1) have "expr_ints_ok e"
        by (auto simp: list_all_iff)
      with JoinedStr [OF p] e show False by simp
    qed
  qed
next
  case (Call f args kws)
  show ?case
  proof
    assume ok: "expr_ints_ok (Call f args kws)"
    then have f: "\<not> expression_raises f"
      using Call(1) by simp
    have args: "\<not> list_ex expression_raises args"
      using ok Call(2) by (auto simp: list_ex_iff list_all_iff)
    show "\<not> expression_raises (Call f args kws)"
    proof (cases f)
      case (Name n)
      with args show ?thesis by simp
    next
      case (Attribute obj a)
      with f have "\<not> expression_raises obj"
        using callee_object_ok [of obj a] by simp
      with Attribute args show ?thesis by simp
    qed simp_all
  qed
next
  case (Subscript v slice)
  then show ?case
    by (cases slice) (simp_all add: subscript_raises_def)
qed simp_all

lemma expression_ok: "expr_ints_ok e \<Longrightarrow> \<not> expression_raises e"
  using expression_ok_aux by blast



lemma prop_value_raises_imp: "prop_value_raises v \<Longrightarrow> expression_raises v"
  by (induction v rule: prop_value_raises.induct) (simp_all split: if_splits)

lemma prop_value_ok: "expr_ints_ok v \<Longrightarrow> \<not> prop_value_raises v"
  using expression_ok [of v] prop_value_raises_imp [of v] by blast

lemma child_raises_imp:
  "(case arg of
      Constant c \<Rightarrow> (case c of CStr s \<Rightarrow> False | _ \<Rightarrow> element_expression_raises arg)
    | _ \<Rightarrow> element_expression_raises arg) \<Longrightarrow> element_expression_raises arg"
  by (cases arg) (simp_all split: py_value.splits)

lemma render_assignment_raises_imp:
  "render_assignment_raises targets val \<Longrightarrow> expression_raises val"
  by (simp add: render_assignment_raises_def split: list.splits expr.splits)


lemma element_ok_aux: "expr_ints_ok e \<longrightarrow> \<not> element_expression_raises e"
proof (induction e rule: expr.induct [where ?P2.0 = "\<lambda>p. True"])
  case (Call f args kws)
  show ?case
  proof
    assume ok: "expr_ints_ok (Call f args kws)"
    have a: "\<not> list_ex (\<lambda>arg. case arg of
                       Constant c \<Rightarrow>
                         (case c of
                            CStr s \<Rightarrow> False
                          | _ \<Rightarrow> element_expression_raises arg)
                     | _ \<Rightarrow> element_expression_raises arg) args"
    proof
      assume "list_ex (\<lambda>arg. case arg of
                       Constant c \<Rightarrow>
                         (case c of
                            CStr s \<Rightarrow> False
                          | _ \<Rightarrow> element_expression_raises arg)
                     | _ \<Rightarrow> element_expression_raises arg) args"
      then obtain arg where m: "arg \<in> set args" and r: "element_expression_raises arg"
        unfolding list_ex_iff using child_raises_imp by blast
      from ok m have "expr_ints_ok arg" by (simp add: list_all_iff)
      with Call(2) [OF m] r show False by simp
    qed
    have k: "\<not> list_ex (\<lambda>(arg, val). prop_value_raises val) kws"
    proof
      assume "list_ex (\<lambda>(arg, val). prop_value_raises val) kws"
      then obtain arg val where m: "(arg, val) \<in> set kws" and r: "prop_value_raises val"
        unfolding list_ex_iff by blast
      from ok m have "expr_ints_ok val" by (auto simp: list_all_iff)
      with r show False using prop_value_ok by blast
    qed
    from a k show "\<not> element_expression_raises (Call f args kws)"
      by (cases f) simp_all
  qed
next
  case (Dict x)
  show ?case using expression_ok [of "Dict x"] by (simp only: element_expression_raises.simps) blast
next
  case (Constant x)
  show ?case using expression_ok [of "Constant x"] by (simp only: element_expression_raises.simps) blast
next
  case (Name x)
  show ?case by simp
next
  case (Attribute x1 x2)
  show ?case using expression_ok [of "Attribute x1 x2"] by (simp only: element_expression_raises.simps) blast
next
  case (BinOp x1 x2 x3)
  show ?case using expression_ok [of "BinOp x1 x2 x3"] by (simp only: element_expression_raises.simps) blast
next
  case (JoinedStr x)
  show ?case using expression_ok [of "JoinedStr x"] by (simp only: element_expression_raises.simps) blast
next
  case (Subscript x1 x2)
  show ?case using expression_ok [of "Subscript x1 x2"] by (simp only: element_expression_raises.simps) blast
next
  case (ListLit x)
  show ?case by simp
next
  case (OtherExpr x)
  show ?case by simp
next
  case (Literal x)
  show ?case by simp
next
  case (FormattedValue x)
  show ?case by simp
qed

lemma element_ok: "expr_ints_ok e \<Longrightarrow> \<not> element_expression_raises e"
  using element_ok_aux by blast


lemma method_call_ok:
  "list_all expr_ints_ok args \<Longrightarrow> \<not> method_call_raises f args"
  by (cases args) (simp_all add: method_call_raises_def expression_ok)

lemma statement_ok: "stmt_ints_ok s \<Longrightarrow> \<not> statement_raises s"
proof (cases s)
  case (Expr v)
  assume "stmt_ints_ok s"
  with Expr have "expr_ints_ok v" by simp
  then show ?thesis
    unfolding Expr by (cases v) (simp_all add: method_call_ok)
next
  case (Return v)
  assume "stmt_ints_ok s"
  with Return show ?thesis
    by (cases v) (simp_all add: expression_opt_raises_def expression_ok)
qed simp_all

lemma method_ok: "list_all stmt_ints_ok (m_body meth) \<Longrightarrow> \<not> method_to_js_raises meth"
  unfolding method_to_js_raises_def list_ex_iff list_all_iff
  using statement_ok by blast

lemma render_ok:
  "list_all stmt_ints_ok body \<Longrightarrow>
   (case ret of Some (Some e) \<Rightarrow> expr_ints_ok e | _ \<Rightarrow> True) \<Longrightarrow>
   render_failure d ret body = None"
proof (induction body arbitrary: d ret)
  case Nil
  show ?case
  proof (cases ret)
    case None
    then show ?thesis by simp
  next
    case (Some v)
    with Nil show ?thesis
      by (cases v) (simp_all add: element_expression_opt_raises_def element_ok)
  qed
next
  case (Cons s body)
  from Cons.prems have body: "list_all stmt_ints_ok body" and s: "stmt_ints_ok s"
    by simp_all
  show ?case
  proof (cases s)
    case (Return v)
    with s have "case Some v of Some (Some e) \<Rightarrow> expr_ints_ok e | _ \<Rightarrow> True"
      by (cases v) simp_all
    with Cons.IH [OF body] Return show ?thesis by simp
  next
    case (Assign targets val)
    with s have "\<not> expression_raises val"
      by (simp add: expression_ok)
    then have "\<not> render_assignment_raises targets val"
      using render_assignment_raises_imp by blast
    with Cons.IH [OF body Cons.prems(2)] Assign show ?thesis by simp
  next
    case (FunctionDef n a b)
    with Cons.IH [OF body Cons.prems(2)] show ?thesis by simp
  next
    case (ClassDef n b)
    with Cons.IH [OF body Cons.prems(2)] show ?thesis by simp
  next
    case (Expr v)
    with Cons.IH [OF body Cons.prems(2)] show ?thesis by simp
  next
    case (OtherStmt k b)
    with Cons.IH [OF body Cons.prems(2)] show ?thesis by simp
  qed
qed


lemma ast_to_js_value_ok_aux: "expr_ints_ok e \<longrightarrow> \<not> ast_to_js_value_raises e"
proof (induction e rule: expr.induct [where ?P2.0 = "\<lambda>p. True"])
  case (Dict kvs)
  show ?case
  proof
    assume ok: "expr_ints_ok (Dict kvs)"
    show "\<not> ast_to_js_value_raises (Dict kvs)"
    proof
      assume "ast_to_js_value_raises (Dict kvs)"
      then obtain key val where kv: "(key, val) \<in> set kvs"
        and r: "(case key of None \<Rightarrow> False | Some k \<Rightarrow> ast_to_js_value_raises k)
                \<or> ast_to_js_value_raises val"
        by (auto simp: list_ex_iff)
      from ok kv have okk: "case key of None \<Rightarrow> True | Some k \<Rightarrow> expr_ints_ok k"
        and okv: "expr_ints_ok val"
        by (auto simp: list_all_iff)
      from r show False
      proof
        assume "case key of None \<Rightarrow> False | Some k \<Rightarrow> ast_to_js_value_raises k"
        then obtain k where k: "key = Some k" "ast_to_js_value_raises k"
          by (cases key) auto
        with okk have "expr_ints_ok k" by simp
        moreover have "expr_ints_ok k \<longrightarrow> \<not> ast_to_js_value_raises k"
          using Dict(1) [of "(key, val)" key k] kv k(1) by simp
        ultimately show False using k(2) by simp
      next
        assume "ast_to_js_value_raises val"
        moreover have "expr_ints_ok val \<longrightarrow> \<not> ast_to_js_value_raises val"
          using Dict(2) [of "(key, val)" val] kv by simp
        ultimately show False using okv by simp
      qed
    qed
  qed
next
  case (ListLit es)
  show ?case
  proof
    assume ok: "expr_ints_ok (ListLit es)"
    show "\<not> ast_to_js_value_raises (ListLit es)"
    proof
      assume "ast_to_js_value_raises (ListLit es)"
      then obtain el where m: "el \<in> set es" and r: "ast_to_js_value_raises el"
        by (auto simp: list_ex_iff)
      from ok m have "expr_ints_ok el" by (simp add: list_all_iff)
      with ListLit [OF m] r show False by simp
    qed
  qed
qed simp_all

lemma ast_to_js_value_ok: "expr_ints_ok e \<Longrightarrow> \<not> ast_to_js_value_raises e"
  using ast_to_js_value_ok_aux by blast


lemma entry_raises_imp:
  "(case key of
      Some (Constant k) \<Rightarrow>
        (case val of Constant v \<Rightarrow> False | _ \<Rightarrow> ast_to_js_value_raises val)
    | _ \<Rightarrow> False) \<longrightarrow> ast_to_js_value_raises val"
  by (cases val) (simp_all split: option.split expr.split)

lemma extract_entries_raises_ok:
  assumes "expr_ints_ok (Dict kvs)"
  shows "\<not> extract_entries_raises kvs"
proof
  assume "extract_entries_raises kvs"
  then obtain key val where kv: "(key, val) \<in> set kvs" and r: "ast_to_js_value_raises val"
    unfolding extract_entries_raises_def list_ex_iff
    using entry_raises_imp by fastforce
  from assms kv have "expr_ints_ok val" by (auto simp: list_all_iff)
  with r show False using ast_to_js_value_ok by blast
qed

lemma state_assign_raises_imp:
  "(case stmt of
      Assign targets val \<Rightarrow>
        list_ex (\<lambda>target. is_self_attr ''state'' target
                   \<and> (case val of Dict kvs \<Rightarrow> extract_entries_raises kvs | _ \<Rightarrow> False)) targets
    | _ \<Rightarrow> False) \<longrightarrow>
   (\<exists>targets kvs. stmt = Assign targets (Dict kvs) \<and> extract_entries_raises kvs)"
  by (simp split: stmt.split expr.split add: list_ex_iff)

lemma extract_initial_state_raises_ok:
  assumes "list_all stmt_ints_ok init_body"
  shows "\<not> extract_initial_state_raises init_body"
proof
  assume "extract_initial_state_raises init_body"
  then obtain stmt where s: "stmt \<in> set init_body"
    and c: "case stmt of
      Assign targets val \<Rightarrow>
        list_ex (\<lambda>target. is_self_attr ''state'' target
                   \<and> (case val of Dict kvs \<Rightarrow> extract_entries_raises kvs | _ \<Rightarrow> False)) targets
    | _ \<Rightarrow> False"
    unfolding extract_initial_state_raises_def list_ex_iff by blast
  from c obtain targets kvs where m: "stmt = Assign targets (Dict kvs)"
    and r: "extract_entries_raises kvs"
    using state_assign_raises_imp [of stmt] by blast
  from assms s m have "stmt_ints_ok (Assign targets (Dict kvs))"
    unfolding list_all_iff by blast
  then have "expr_ints_ok (Dict kvs)" by simp
  with r show False using extract_entries_raises_ok by blast
qed


lemma dict_set_all:
  "list_all (\<lambda>(k, v). Q k \<and> R v) d \<Longrightarrow> Q k \<Longrightarrow> R v \<Longrightarrow>
   list_all (\<lambda>(k, v). Q k \<and> R v) (dict_set eq k v d)"
  by (induction d) auto

lemma extract_entries_small:
  "list_all (\<lambda>(k, v). \<not> str_raises k \<and> \<not> str_raises v) st \<Longrightarrow>
   expr_ints_ok (Dict kvs) \<Longrightarrow>
   list_all (\<lambda>(k, v). \<not> str_raises k \<and> \<not> str_raises v) (extract_entries st kvs)"
proof (induction kvs arbitrary: st)
  case Nil
  then show ?case by simp
next
  case (Cons kv kvs)
  obtain key val where kv: "kv = (key, val)" by (cases kv)
  from Cons.prems(2) kv have rest: "expr_ints_ok (Dict kvs)"
    and okk: "case key of None \<Rightarrow> True | Some k \<Rightarrow> expr_ints_ok k"
    and okv: "expr_ints_ok val"
    by simp_all
  have "list_all (\<lambda>(k, v). \<not> str_raises k \<and> \<not> str_raises v)
          (case key of
             Some (Constant k) \<Rightarrow>
               (case val of
                  Constant v \<Rightarrow> dict_set py_eq k v st
                | _ \<Rightarrow> dict_set py_eq k (CStr (ast_to_js_value val)) st)
           | _ \<Rightarrow> st)"
  proof (cases key)
    case None
    with Cons.prems(1) show ?thesis by simp
  next
    case (Some k')
    show ?thesis
    proof (cases k')
      case (Constant k)
      with Some okk have k: "\<not> str_raises k" by simp
      show ?thesis
      proof (cases val)
        case (Constant v)
        with okv have "\<not> str_raises v" by simp
        with Cons.prems(1) k show ?thesis
          unfolding Some \<open>k' = Constant k\<close> Constant
          by (simp add: dict_set_all)
      qed (use Cons.prems(1) k Some \<open>k' = Constant k\<close> in
            \<open>simp_all add: dict_set_all str_raises_simps\<close>)
    qed (use Cons.prems(1) Some in simp_all)
  qed
  from Cons.IH [OF this rest] kv show ?case by simp
qed

lemma extract_targets_small:
  "list_all (\<lambda>(k, v). \<not> str_raises k \<and> \<not> str_raises v) st \<Longrightarrow>
   expr_ints_ok val \<Longrightarrow>
   list_all (\<lambda>(k, v). \<not> str_raises k \<and> \<not> str_raises v) (extract_targets st val targets)"
proof (induction targets arbitrary: st)
  case Nil
  then show ?case by simp
next
  case (Cons t targets)
  have "list_all (\<lambda>(k, v). \<not> str_raises k \<and> \<not> str_raises v)
          (if is_self_attr ''state'' t then
             (case val of Dict kvs \<Rightarrow> extract_entries st kvs | _ \<Rightarrow> st)
           else st)"
    using Cons.prems by (cases val) (simp_all add: extract_entries_small del: expr_ints_ok.simps)
  from Cons.IH [OF this Cons.prems(2)] show ?case by simp
qed

lemma extract_stmts_small:
  "list_all (\<lambda>(k, v). \<not> str_raises k \<and> \<not> str_raises v) st \<Longrightarrow>
   list_all stmt_ints_ok body \<Longrightarrow>
   list_all (\<lambda>(k, v). \<not> str_raises k \<and> \<not> str_raises v) (extract_stmts st body)"
proof (induction body arbitrary: st)
  case Nil
  then show ?case by simp
next
  case (Cons s body)
  from Cons.prems(2) have s: "stmt_ints_ok s" and body: "list_all stmt_ints_ok body"
    by simp_all
  have "list_all (\<lambda>(k, v). \<not> str_raises k \<and> \<not> str_raises v)
          (case s of Assign targets val \<Rightarrow> extract_targets st val targets | _ \<Rightarrow> st)"
    using Cons.prems(1) s by (cases s) (simp_all add: extract_targets_small)
  from Cons.IH [OF this body] show ?case by simp
qed

lemma state_entry_raises_imp:
  "(case val of
      CStr s \<Rightarrow> str_raises key
    | CBool b \<Rightarrow> str_raises key
    | _ \<Rightarrow> str_raises key \<or> str_raises val) \<longrightarrow> str_raises key \<or> str_raises val"
  by (cases val) simp_all

lemma dict_to_js_object_ok:
  assumes "list_all (\<lambda>(k, v). \<not> str_raises k \<and> \<not> str_raises v) d"
  shows "\<not> dict_to_js_object_raises d"
proof
  assume "dict_to_js_object_raises d"
  then obtain key val where kv: "(key, val) \<in> set d" and r: "str_raises key \<or> str_raises val"
    unfolding dict_to_js_object_raises_def list_ex_iff
    using state_entry_raises_imp by fastforce
  from assms kv have "\<not> str_raises key \<and> \<not> str_raises val"
    unfolding list_all_iff by blast
  with r show False by blast
qed

lemma extract_initial_state_ok:
  "list_all stmt_ints_ok init_body \<Longrightarrow>
   \<not> dict_to_js_object_raises (extract_initial_state init_body)"
  by (simp add: extract_initial_state_def dict_to_js_object_ok extract_stmts_small)


lemma dict_set_values:
  "list_all (\<lambda>(k, v). R v) d \<Longrightarrow> R v \<Longrightarrow> list_all (\<lambda>(k, v). R v) (dict_set eq k v d)"
  by (induction d) auto

lemma analyze_body_ok:
  assumes "list_all stmt_ints_ok body"
    and "\<not> dict_to_js_object_raises (initial_state info)"
    and "list_all (\<lambda>(n, m). list_all stmt_ints_ok (m_body m)) (methods info)"
    and "case render_method info of Some m \<Rightarrow> list_all stmt_ints_ok (m_body m) | None \<Rightarrow> True"
  shows "\<not> dict_to_js_object_raises (initial_state (analyze_body info body))
         \<and> list_all (\<lambda>(n, m). list_all stmt_ints_ok (m_body m))
             (methods (analyze_body info body))
         \<and> (case render_method (analyze_body info body) of
               Some m \<Rightarrow> list_all stmt_ints_ok (m_body m) | None \<Rightarrow> True)"
  using assms
proof (induction body arbitrary: info)
  case Nil
  then show ?case by simp
next
  case (Cons node body)
  from Cons.prems(1) have node: "stmt_ints_ok node" and body: "list_all stmt_ints_ok body"
    by simp_all
  show ?case
  proof (cases node)
    case (FunctionDef n a b)
    with node have b: "list_all stmt_ints_ok b" by simp
    let ?m = "analyze_method n a b"
    let ?info = "info\<lparr>methods := dict_set (=) n ?m (methods info)\<rparr>"
    let ?step = "if n = ''__init__'' then
                   ?info\<lparr>init_method := Some ?m, initial_state := extract_initial_state b\<rparr>
                 else if n = ''render'' then ?info\<lparr>render_method := Some ?m\<rparr>
                 else ?info"
    have "methods ?step = dict_set (=) n ?m (methods info)"
      by simp
    moreover have "list_all (\<lambda>(n, m). list_all stmt_ints_ok (m_body m))
                     (dict_set (=) n ?m (methods info))"
      using Cons.prems(3) b by (intro dict_set_values) (simp_all add: analyze_method_def)
    ultimately have ms: "list_all (\<lambda>(n, m). list_all stmt_ints_ok (m_body m)) (methods ?step)"
      by (simp only:)
    have st: "\<not> dict_to_js_object_raises (initial_state ?step)"
      using Cons.prems(2) b by (simp add: extract_initial_state_ok)
    have r: "case render_method ?step of Some m \<Rightarrow> list_all stmt_ints_ok (m_body m) | None \<Rightarrow> True"
      using Cons.prems(4) b by (simp add: analyze_method_def)
    from Cons.IH [OF body st ms r] FunctionDef show ?thesis
      by (simp add: Let_def)
  qed (use Cons.IH [OF body Cons.prems(2) Cons.prems(3) Cons.prems(4)] in simp_all)
qed

lemma analyze_component_class_raises_ok:
  assumes "list_all stmt_ints_ok body"
  shows "\<not> analyze_component_class_raises body"
proof
  assume "analyze_component_class_raises body"
  then obtain node where m: "node \<in> set body"
    and c: "case node of
                FunctionDef n a b \<Rightarrow> n = ''__init__'' \<and> extract_initial_state_raises b
              | _ \<Rightarrow> False"
    unfolding analyze_component_class_raises_def list_ex_iff by blast
  from c obtain n a b where n: "node = FunctionDef n a b" and r: "extract_initial_state_raises b"
    by (cases node) simp_all
  from assms m n have "list_all stmt_ints_ok b"
    unfolding list_all_iff [of stmt_ints_ok body] by fastforce
  with r show False using extract_initial_state_raises_ok by blast
qed

lemma generate_failure_ok:
  assumes "\<not> dict_to_js_object_raises (initial_state info)"
    and "list_all (\<lambda>(n, m). list_all stmt_ints_ok (m_body m)) (methods info)"
    and "case render_method info of Some m \<Rightarrow> list_all stmt_ints_ok (m_body m) | None \<Rightarrow> True"
  shows "generate_failure lv info = None"
proof -
  have "\<not> list_ex (\<lambda>(method_name, meth).
                         method_name \<notin> {''__init__'', ''render''} \<and> method_to_js_raises meth)
                (methods info)"
  proof
    assume "list_ex (\<lambda>(method_name, meth).
                         method_name \<notin> {''__init__'', ''render''} \<and> method_to_js_raises meth)
                (methods info)"
    then obtain n m where nm: "(n, m) \<in> set (methods info)" and r: "method_to_js_raises m"
      unfolding list_ex_iff by blast
    from assms(2) nm have "list_all stmt_ints_ok (m_body m)"
      unfolding list_all_iff [of _ "methods info"] by blast
    with r show False using method_ok by blast
  qed
  moreover have "(case render_method info of
              Some meth \<Rightarrow> map_option Some (render_failure [] None (m_body meth))
            | None \<Rightarrow> None) = None"
    using assms(3) by (cases "render_method info") (simp_all add: render_ok)
  ultimately show ?thesis
    using assms(1) by (simp only: generate_failure_def if_False simp_thms)
qed

lemma class_ints_ok:
  assumes "list_all stmt_ints_ok body"
  shows "\<not> analyze_component_class_raises body"
    and "generate_failure lv (analyze_component_class n body) = None"
proof -
  show "\<not> analyze_component_class_raises body"
    using assms by (rule analyze_component_class_raises_ok)
  let ?init = "\<lparr>c_name = n, methods = [], init_method = None, render_method = None,
                 initial_state = []\<rparr>"
  have "\<not> dict_to_js_object_raises (initial_state (analyze_body ?init body))
         \<and> list_all (\<lambda>(n, m). list_all stmt_ints_ok (m_body m))
             (methods (analyze_body ?init body))
         \<and> (case render_method (analyze_body ?init body) of
               Some m \<Rightarrow> list_all stmt_ints_ok (m_body m) | None \<Rightarrow> True)"
    using assms by (intro analyze_body_ok) (simp_all add: dict_to_js_object_raises_def)
  then show "generate_failure lv (analyze_component_class n body) = None"
    unfolding analyze_component_class_def by (intro generate_failure_ok) simp_all
qed


lemma subnodes_ok: "stmt_ints_ok node \<Longrightarrow> m \<in> set (subnodes node) \<Longrightarrow> stmt_ints_ok m"
  by (induction node arbitrary: m rule: subnodes.induct) (auto simp: list_all_iff)

lemma tree_nodes_ok:
  "list_all stmt_ints_ok tree \<Longrightarrow> m \<in> set (tree_nodes tree) \<Longrightarrow> stmt_ints_ok m"
  unfolding tree_nodes_def list_all_iff using subnodes_ok by auto

lemma generate_failure_locals:
  "(generate_failure lv info = None) = (generate_failure lv' info = None)"
  by (simp add: generate_failure_def)

section \<open>Failure of the class search\<close>

text \<open>
  Claim C3. If no class declaration node with the expected name exists in the supplied
  tree, \<^verbatim>\<open>transpile_component\<close> fails with the error for a declaration that was not found,
  and the transpiler object, with its registry of components, is what it was before the
  call: no entry is inserted and none is changed.
\<close>

theorem declaration_not_found_keeps_registry:
  assumes "\<forall>b. ClassDef (cls_name cls) b \<notin> set (tree_nodes (cls_tree cls))"
  shows "transpile_component self cls =
           (Inl (ValueError (''Could not find class definition for '' @ cls_name cls)), self)
         \<and> components (snd (transpile_component self cls)) = components self"
proof -
  from assms have "find_class_def (cls_tree cls) (cls_name cls) = None"
    by (simp add: find_class_def_None)
  then show ?thesis
    by (simp add: transpile_component_def)
qed

theorem declaration_not_found_keeps_registry_witness:
  "(\<forall>b. ClassDef ''Greeting'' b \<notin> set (tree_nodes counter_tree))
   \<and> transpile_component new_transpiler \<lparr>cls_name = ''Greeting'', cls_tree = counter_tree\<rparr> =
       (Inl (ValueError ''Could not find class definition for Greeting''), new_transpiler)"
proof -
  have h: "\<forall>b. ClassDef ''Greeting'' b \<notin> set (tree_nodes counter_tree)"
    by (simp add: tree_nodes_def example_defs)
  show ?thesis
    using h declaration_not_found_keeps_registry
      [of "\<lparr>cls_name = ''Greeting'', cls_tree = counter_tree\<rparr>" new_transpiler]
    by simp
qed

section \<open>Constructs outside the supported grammar\<close>

lemma transpile_component_succeeds:
  assumes "find_class_def (cls_tree cls) (cls_name cls) = Some (n, body)"
    and "\<not> analyze_component_class_raises body"
    and "generate_failure (local_variables self) (analyze_component_class n body) = None"
  shows "fst (transpile_component self cls) =
           Inr (fst (generate_js_component (local_variables self) (analyze_component_class n body)))"
  using assms by (simp add: transpile_component_def Let_def split: prod.splits)



lemma found_class:
  assumes "\<exists>b. ClassDef (cls_name cls) b \<in> set (tree_nodes (cls_tree cls))"
  obtains n body where "find_class_def (cls_tree cls) (cls_name cls) = Some (n, body)"
    and "ClassDef (cls_name cls) body \<in> set (tree_nodes (cls_tree cls))"
proof -
  from assms have "find_class_def (cls_tree cls) (cls_name cls) \<noteq> None"
    by (simp add: find_class_def_None)
  then obtain n body where f: "find_class_def (cls_tree cls) (cls_name cls) = Some (n, body)"
    by auto
  then have "ClassDef (cls_name cls) body \<in> set (walk (cls_tree cls))"
    unfolding find_class_def_def by (simp add: first_class_def_Some)
  with f that show thesis
    by (simp add: set_walk_tree_nodes)
qed

lemma transpile_component_ints_ok:
  assumes "\<exists>b. ClassDef (cls_name cls) b \<in> set (tree_nodes (cls_tree cls))"
    and "list_all stmt_ints_ok (cls_tree cls)"
  shows "\<exists>js_code. fst (transpile_component self cls) = Inr js_code"
proof -
  from assms(1) obtain n body where
    f: "find_class_def (cls_tree cls) (cls_name cls) = Some (n, body)"
    and m: "ClassDef (cls_name cls) body \<in> set (tree_nodes (cls_tree cls))"
    by (rule found_class)
  from assms(2) m have "stmt_ints_ok (ClassDef (cls_name cls) body)"
    by (rule tree_nodes_ok)
  then have ok: "list_all stmt_ints_ok body" by simp
  show ?thesis
    using transpile_component_succeeds [OF f class_ints_ok(1) [OF ok] class_ints_ok(2) [OF ok]]
    by blast
qed




section \<open>The emitted text does not depend on the transpiler object\<close>

text \<open>
  The only attribute that the transpiling functions read is \<^verbatim>\<open>local_variables\<close>, in the
  f-string rule; the two branches of that test emit the same text, since a name
  transpiles to itself.
\<close>

lemma transpile_expression_locals: "transpile_expression lv e = transpile_expression lv' e"
proof (induction lv e rule: transpile_expression.induct)
  case (1 lv kvs)
  then have "map (\<lambda>(key, val).
              (case key of None \<Rightarrow> ''null'' | Some k \<Rightarrow> transpile_expression lv k)
                @ '': '' @ transpile_expression lv val) kvs =
             map (\<lambda>(key, val).
              (case key of None \<Rightarrow> ''null'' | Some k \<Rightarrow> transpile_expression lv' k)
                @ '': '' @ transpile_expression lv' val) kvs"
    by (intro map_cong) (auto split: option.splits)
  then show ?case by (simp only: transpile_expression.simps)
next
  case (4 lv v attr)
  then show ?case by simp
next
  case (5 lv l op r)
  then show ?case by (simp add: Let_def)
next
  case (6 lv parts)
  have "map (\<lambda>part. case part of
               Literal s \<Rightarrow> s
             | FormattedValue e \<Rightarrow>
                 (case e of
                    Name var_name \<Rightarrow>
                      if is_local lv var_name then ''${'' @ var_name @ ''}''
                      else ''${'' @ transpile_expression lv e @ ''}''
                  | Subscript v slice \<Rightarrow>
                      (let expr_js = transpile_expression lv e;
                           expr_js = transpile_subscript v slice
                       in ''${'' @ expr_js @ ''}'')
                  | _ \<Rightarrow> ''${'' @ transpile_expression lv e @ ''}'')) parts =
        map (\<lambda>part. case part of
               Literal s \<Rightarrow> s
             | FormattedValue e \<Rightarrow>
                 (case e of
                    Name var_name \<Rightarrow>
                      if is_local lv' var_name then ''${'' @ var_name @ ''}''
                      else ''${'' @ transpile_expression lv' e @ ''}''
                  | Subscript v slice \<Rightarrow>
                      (let expr_js = transpile_expression lv' e;
                           expr_js = transpile_subscript v slice
                       in ''${'' @ expr_js @ ''}'')
                  | _ \<Rightarrow> ''${'' @ transpile_expression lv' e @ ''}'')) parts"
  proof (intro map_cong refl)
    fix part assume p: "part \<in> set parts"
    show "(case part of
               Literal s \<Rightarrow> s
             | FormattedValue e \<Rightarrow>
                 (case e of
                    Name var_name \<Rightarrow>
                      if is_local lv var_name then ''${'' @ var_name @ ''}''
                      else ''${'' @ transpile_expression lv e @ ''}''
                  | Subscript v slice \<Rightarrow>
                      (let expr_js = transpile_expression lv e;
                           expr_js = transpile_subscript v slice
                       in ''${'' @ expr_js @ ''}'')
                  | _ \<Rightarrow> ''${'' @ transpile_expression lv e @ ''}'')) =
        (case part of
               Literal s \<Rightarrow> s
             | FormattedValue e \<Rightarrow>
                 (case e of
                    Name var_name \<Rightarrow>
                      if is_local lv' var_name then ''${'' @ var_name @ ''}''
                      else ''${'' @ transpile_expression lv' e @ ''}''
                  | Subscript v slice \<Rightarrow>
                      (let expr_js = transpile_expression lv' e;
                           expr_js = transpile_subscript v slice
                       in ''${'' @ expr_js @ ''}'')
                  | _ \<Rightarrow> ''${'' @ transpile_expression lv' e @ ''}''))"
    proof (cases part)
      case (Literal s)
      then show ?thesis by simp
    next
      case (FormattedValue e)
      with p 6 show ?thesis by (cases e) (simp_all add: Let_def)
    qed
  qed
  then show ?case by (simp only: transpile_expression.simps)
next
  case (7 lv f args kws)
  show ?case
  proof (cases f)
    case (Name func_name)
    with 7 have "map (transpile_expression lv) args = map (transpile_expression lv') args"
      by (intro map_cong) auto
    with Name show ?thesis by (simp only: transpile_expression.simps expr.case)
  next
    case (Attribute obj method_name)
    with 7 have "map (transpile_expression lv) args = map (transpile_expression lv') args"
      and "transpile_expression lv obj = transpile_expression lv' obj"
      by (auto intro!: map_cong)
    with Attribute show ?thesis by (simp only: transpile_expression.simps expr.case)
  qed simp_all
qed simp_all

lemma transpile_statement_locals: "transpile_statement lv s = transpile_statement lv' s"
proof (cases s)
  case (Expr v)
  then show ?thesis
    using transpile_expression_locals [of lv _ lv']
    by (cases v) (simp_all add: transpile_method_call_def split: list.splits)
next
  case (Return v)
  then show ?thesis
    using transpile_expression_locals [of lv _ lv']
    by (cases v) (simp_all add: transpile_expression_opt_def)
qed simp_all

lemma transpile_method_to_js_locals:
  "transpile_method_to_js lv meth = transpile_method_to_js lv' meth"
proof -
  have "transpile_statement lv = transpile_statement lv'"
    by (rule ext) (rule transpile_statement_locals)
  then show ?thesis
    by (simp only: transpile_method_to_js_def)
qed

lemma method_lines_locals: "method_lines lv ms = method_lines lv' ms"
proof -
  have "transpile_method_to_js lv = transpile_method_to_js lv'"
    by (rule ext) (rule transpile_method_to_js_locals)
  then show ?thesis
    by (simp only: method_lines_def)
qed

lemma generate_js_component_locals:
  "fst (generate_js_component lv info) = fst (generate_js_component lv' info)"
  using method_lines_locals [of lv "methods info" lv']
  by (cases "render_method info")
     (simp_all add: generate_js_component_def render_lines_def split: prod.splits)

lemma transpile_component_text:
  "fst (transpile_component self cls) =
     (case find_class_def (cls_tree cls) (cls_name cls) of
        None \<Rightarrow> Inl (ValueError (''Could not find class definition for '' @ cls_name cls))
      | Some (n, body) \<Rightarrow>
          if analyze_component_class_raises body
             \<or> generate_failure None (analyze_component_class n body) \<noteq> None
          then Inl int_str_error
          else Inr (fst (generate_js_component None (analyze_component_class n body))))"
proof (cases "find_class_def (cls_tree cls) (cls_name cls)")
  case None
  then show ?thesis by (simp add: transpile_component_def)
next
  case (Some found)
  obtain n body where found: "found = (n, body)" by (cases found)
  let ?info = "analyze_component_class n body"
  show ?thesis
  proof (cases "analyze_component_class_raises body")
    case True
    with Some found show ?thesis by (simp add: transpile_component_def)
  next
    case False
    show ?thesis
    proof (cases "generate_failure (local_variables self) ?info")
      case None
      then have "generate_failure None ?info = None"
        using generate_failure_locals [of "local_variables self" ?info None] by simp
      moreover have "fst (transpile_component self cls) =
                       Inr (fst (generate_js_component (local_variables self) ?info))"
        using Some found False None by (simp add: transpile_component_succeeds)
      ultimately show ?thesis
        using Some found False
          generate_js_component_locals [of "local_variables self" ?info None]
        by simp
    next
      case (Some lv)
      then have "generate_failure None ?info \<noteq> None"
        using generate_failure_locals [of "local_variables self" ?info None] by simp
      with \<open>find_class_def (cls_tree cls) (cls_name cls) = Some found\<close> found False Some
      show ?thesis by (simp add: transpile_component_def)
    qed
  qed
qed

text \<open>
  Claim C9. Transpiling is deterministic: what \<^verbatim>\<open>transpile_component\<close> returns for a
  class, the text or the error, is the same for every state of the transpiler object,
  so it is the same the second time, whatever was transpiled in between and whatever
  local variables an earlier render method left behind. The render method starts from
  an empty dictionary of local variables, and the other methods read the dictionary only
  in the f-string rule, where it does not change the text.
\<close>

theorem transpile_component_deterministic:
  "fst (transpile_component self cls) = fst (transpile_component self' cls)
   \<and> fst (transpile_component (run (snd (transpile_component self cls)) others) cls) =
       fst (transpile_component self cls)"
proof -
  have any: "fst (transpile_component s cls) = fst (transpile_component s' cls)" for s s'
    by (simp only: transpile_component_text)
  show ?thesis
  proof
    show "fst (transpile_component self cls) = fst (transpile_component self' cls)"
      by (rule any)
    show "fst (transpile_component (run (snd (transpile_component self cls)) others) cls) =
          fst (transpile_component self cls)"
      by (rule any)
  qed
qed

section \<open>The render method\<close>

lemma render_loop_returns:
  "render_loop d js ret body =
     (case render_loop d js None (filter (\<lambda>s. \<not> is_return s) body) of
        (d', js', r) \<Rightarrow> (d', js', last_return ret body))"
proof (induction body arbitrary: d js ret)
  case Nil
  show ?case by simp
next
  case (Cons s body)
  show ?case
  proof (cases s)
    case (Return v)
    then show ?thesis
      using Cons [of d js "Some v"] by simp
  next
    case (Assign targets val)
    obtain a d' where t: "transpile_render_assignment d targets val = (a, d')"
      by (cases "transpile_render_assignment d targets val")
    show ?thesis
    proof (cases a)
      case None
      with t Assign show ?thesis
        using Cons [of d' js ret] by simp
    next
      case (Some js_assign)
      with t Assign show ?thesis
        using Cons [of d' "js @ [js_assign]" ret] by simp
    qed
  next
    case (FunctionDef n a b)
    then show ?thesis using Cons [of d js ret] by simp
  next
    case (ClassDef n b)
    then show ?thesis using Cons [of d js ret] by simp
  next
    case (Expr v)
    then show ?thesis using Cons [of d js ret] by simp
  next
    case (OtherStmt k b)
    then show ?thesis using Cons [of d js ret] by simp
  qed
qed

lemma last_return_none: "\<forall>s\<in>set body. \<not> is_return s \<Longrightarrow> last_return ret body = ret"
  by (induction body arbitrary: ret) (auto split: stmt.splits)

lemma last_return_last:
  "\<forall>s\<in>set post. \<not> is_return s \<Longrightarrow> last_return ret (pre @ Return v # post) = Some v"
  by (induction pre arbitrary: ret) (simp_all add: last_return_none)

lemma filter_returns_idem:
  "\<forall>s\<in>set post. \<not> is_return s \<Longrightarrow>
   filter (\<lambda>s. \<not> is_return s) (filter (\<lambda>s. \<not> is_return s) pre @ Return v # post) =
   filter (\<lambda>s. \<not> is_return s) (pre @ Return v # post)"
  by simp

text \<open>
  Claim C10. If the body of the render method has no return statement, its text is
  \<^verbatim>\<open>null\<close>, and the line emitted for it is \<^verbatim>\<open>return null;\<close>, whatever assignments the body
  holds: no declaration of a constant and no wrapper function is emitted. If the body has
  several return statements, the text is that of the body without the returns before the
  last one.
\<close>

theorem render_without_return_and_last_return:
  "((\<forall>s\<in>set body. \<not> is_return s) \<longrightarrow>
      fst (transpile_render_method body) = ''null''
      \<and> (m_body meth = body \<longrightarrow> fst (render_lines lv (Some meth)) = [''  return null;'']))
   \<and> ((\<forall>s\<in>set post. \<not> is_return s) \<longrightarrow>
      transpile_render_method (pre @ Return v # post) =
      transpile_render_method (filter (\<lambda>s. \<not> is_return s) pre @ Return v # post))"
proof (intro conjI impI)
  assume none: "\<forall>s\<in>set body. \<not> is_return s"
  have "snd (snd (render_loop [] [] None body)) = None"
    using none by (subst render_loop_returns) (simp add: last_return_none split: prod.splits)
  then show null: "fst (transpile_render_method body) = ''null''"
    by (cases "render_loop [] [] None body") (simp add: transpile_render_method_def)
  assume "m_body meth = body"
  with null show "fst (render_lines lv (Some meth)) = [''  return null;'']"
    by (cases "transpile_render_method body") (simp add: render_lines_def)
next
  assume post: "\<forall>s\<in>set post. \<not> is_return s"
  let ?clean = "filter (\<lambda>s. \<not> is_return s) pre @ Return v # post"
  have "render_loop [] [] None (pre @ Return v # post) = render_loop [] [] None ?clean"
    using post
    by (subst render_loop_returns, subst (2) render_loop_returns)
       (simp add: last_return_last)
  then show "transpile_render_method (pre @ Return v # post) = transpile_render_method ?clean"
    by (simp only: transpile_render_method_def)
qed

theorem render_without_return_and_last_return_witness:
  "\<not> is_return (Assign [Name ''x''] (Constant (CInt 1)))
   \<and> fst (transpile_render_method [Assign [Name ''x''] (Constant (CInt 1))]) = ''null''
   \<and> fst (render_lines None (Some \<lparr>m_name = ''render'', m_args = [''self''],
          m_body = [Assign [Name ''x''] (Constant (CInt 1))]\<rparr>)) = [''  return null;'']
   \<and> \<not> is_return (Expr (Name ''b''))
   \<and> fst (transpile_render_method
          [Return (Some (Name ''a'')), Return (Some (Name ''b'')), Expr (Name ''b'')]) = ''b''"
proof -
  have h: "\<forall>s\<in>set [Assign [Name ''x''] (Constant (CInt 1))]. \<not> is_return s"
    and h': "\<forall>s\<in>set [Expr (Name ''b'')]. \<not> is_return s"
    by simp_all
  have e: "fst (transpile_render_method
             (filter (\<lambda>s. \<not> is_return s) [Return (Some (Name ''a''))]
                @ Return (Some (Name ''b'')) # [Expr (Name ''b'')])) = ''b''"
    by (simp add: transpile_render_method_def transpile_element_expression_opt_def)
  show ?thesis
    using h h' e render_without_return_and_last_return
      [where body = "[Assign [Name ''x''] (Constant (CInt 1))]"
         and meth = "\<lparr>m_name = ''render'', m_args = [''self''],
                         m_body = [Assign [Name ''x''] (Constant (CInt 1))]\<rparr>"
         and lv = None and pre = "[Return (Some (Name ''a''))]"
         and v = "Some (Name ''b'')" and post = "[Expr (Name ''b'')]"]
    by simp
qed

section \<open>A class without a render method\<close>






section \<open>The registry of components\<close>

lemma join_Cons: "join sep (x # xs) = x @ concat (map (\<lambda>y. sep @ y) xs)"
  by (induction xs arbitrary: x) simp_all

lemma module_text:
  "join [nl] ([header, []] @ concat (map (\<lambda>(component_name, component_code). [component_code, []]) comps)) =
   header @ [nl] @ concat (map (\<lambda>(component_name, component_code). [nl] @ component_code @ [nl]) comps)"
  by (induction comps) (auto simp: join_Cons)

lemma keys_dict_set:
  "map fst (dict_set (=) k v d) = (if k \<in> set (map fst d) then map fst d else map fst d @ [k])"
  by (induction d) force+

lemma dict_set_fresh: "k \<notin> set (map fst d) \<Longrightarrow> dict_set (=) k v d = d @ [(k, v)]"
  by (induction d) auto

lemma dict_set_again: "dict_set (=) k v (dict_set (=) k v d) = dict_set (=) k v d"
  by (induction d) auto

lemma first_seen_prefix: "\<exists>added. first_seen seen names = seen @ added"
proof (induction names arbitrary: seen)
  case Nil
  show ?case by simp
next
  case (Cons n names)
  show ?case
  proof (cases "n \<in> set seen")
    case True
    with Cons [of seen] show ?thesis by simp
  next
    case False
    from Cons [of "seen @ [n]"] obtain added
      where "first_seen (seen @ [n]) names = seen @ [n] @ added" by auto
    with False show ?thesis by simp
  qed
qed

lemma transpile_component_registry:
  assumes "fst (transpile_component self cls) = Inr js_code"
  shows "components (snd (transpile_component self cls)) =
           dict_set (=) (cls_name cls) js_code (components self)"
  using assms
  by (auto simp: transpile_component_def Let_def split: option.splits prod.splits if_splits)

lemma transpile_component_emitted:
  assumes "succeeds cls"
  shows "fst (transpile_component self cls) = Inr (emitted cls)"
    and "components (snd (transpile_component self cls)) =
           dict_set (=) (cls_name cls) (emitted cls) (components self)"
proof -
  have same: "fst (transpile_component self cls) = fst (transpile_component new_transpiler cls)"
    by (simp only: transpile_component_text)
  from assms obtain js_code where
    js: "fst (transpile_component new_transpiler cls) = Inr js_code"
    by (cases "fst (transpile_component new_transpiler cls)") (simp_all add: succeeds_def)
  then have "emitted cls = js_code"
    by (simp add: emitted_def)
  with same js show first: "fst (transpile_component self cls) = Inr (emitted cls)"
    by simp
  then show "components (snd (transpile_component self cls)) =
           dict_set (=) (cls_name cls) (emitted cls) (components self)"
    by (rule transpile_component_registry)
qed

lemma succeeds_ints_ok:
  assumes "\<exists>b. ClassDef (cls_name cls) b \<in> set (tree_nodes (cls_tree cls))"
    and "list_all stmt_ints_ok (cls_tree cls)"
  shows "succeeds cls"
  using transpile_component_ints_ok [OF assms, of new_transpiler]
  by (auto simp: succeeds_def)

lemma run_keys:
  assumes "\<forall>cls\<in>set calls. succeeds cls"
  shows "map fst (components (run self calls)) =
           first_seen (map fst (components self)) (map cls_name calls)"
  using assms
proof (induction calls arbitrary: self)
  case Nil
  show ?case by simp
next
  case (Cons cls calls)
  then have f: "succeeds cls" by simp
  have "map fst (components (snd (transpile_component self cls))) =
          (if cls_name cls \<in> set (map fst (components self)) then map fst (components self)
           else map fst (components self) @ [cls_name cls])"
    using transpile_component_emitted(2) [OF f] by (simp only: keys_dict_set)
  with Cons show ?case by simp
qed

lemma run_entries:
  assumes "\<forall>cls\<in>set calls. succeeds cls"
    and "distinct (map fst (components self) @ map cls_name calls)"
  shows "components (run self calls) =
           components self @ map (\<lambda>cls. (cls_name cls, emitted cls)) calls"
  using assms
proof (induction calls arbitrary: self)
  case Nil
  show ?case by simp
next
  case (Cons cls calls)
  then have f: "succeeds cls" by simp
  from Cons.prems(2) have fresh: "cls_name cls \<notin> set (map fst (components self))"
    by auto
  have step: "components (snd (transpile_component self cls)) =
          components self @ [(cls_name cls, emitted cls)]"
    using transpile_component_emitted(2) [OF f] fresh by (simp add: dict_set_fresh)
  have "distinct (map fst (components (snd (transpile_component self cls))) @ map cls_name calls)"
    using Cons.prems(2) by (simp add: step)
  with Cons step show ?case by simp
qed

text \<open>
  Claim C8. After a sequence of successful transpile calls, the names in the registry are
  the names already there followed by the new names in the order in which they were
  transpiled first, whatever their alphabetical order: no name is removed or moved, and
  a call for a name that is there stores the text in the place of that name, so that
  transpiling a class again leaves the registry as it is. With distinct names the
  registry holds the emitted texts in the order of the calls. The module text is the
  header comment, then for each component of the registry, in order, a blank line and
  the component's text. A call that succeeds on one transpiler object succeeds on every
  other, with the same text.
\<close>

theorem registry_keeps_first_transpiled_order:
  assumes "\<forall>cls\<in>set calls. succeeds cls"
  shows "map fst (components (run self calls)) =
           first_seen (map fst (components self)) (map cls_name calls)
         \<and> (\<exists>added. map fst (components (run self calls)) = map fst (components self) @ added)
         \<and> (distinct (map fst (components self) @ map cls_name calls) \<longrightarrow>
              components (run self calls) =
                components self @ map (\<lambda>cls. (cls_name cls, emitted cls)) calls)
         \<and> (components (run self calls) \<noteq> [] \<longrightarrow>
              generate_complete_js (run self calls) =
                ''// PyReact - Transpiled Components'' @ [nl]
                @ concat (map (\<lambda>(component_name, component_code). [nl] @ component_code @ [nl])
                            (components (run self calls))))
         \<and> (\<forall>cls\<in>set calls.
              components (snd (transpile_component (snd (transpile_component self cls)) cls)) =
              components (snd (transpile_component self cls)))
         \<and> (\<forall>cls\<in>set calls. fst (transpile_component other cls) = Inr (emitted cls))"
proof (intro conjI impI ballI)
  fix cls assume "cls \<in> set calls"
  with assms have f: "succeeds cls" by simp
  show "components (snd (transpile_component (snd (transpile_component self cls)) cls)) =
        components (snd (transpile_component self cls))"
    by (simp only: transpile_component_emitted(2) [OF f] dict_set_again)
next
  fix cls assume "cls \<in> set calls"
  with assms have "succeeds cls" by simp
  then show "fst (transpile_component other cls) = Inr (emitted cls)"
    by (rule transpile_component_emitted(1))
next
  show keys: "map fst (components (run self calls)) =
           first_seen (map fst (components self)) (map cls_name calls)"
    using assms by (rule run_keys)
  show "\<exists>added. map fst (components (run self calls)) = map fst (components self) @ added"
    unfolding keys by (rule first_seen_prefix)
next
  assume "distinct (map fst (components self) @ map cls_name calls)"
  with assms show "components (run self calls) =
                components self @ map (\<lambda>cls. (cls_name cls, emitted cls)) calls"
    by (rule run_entries)
next
  assume "components (run self calls) \<noteq> []"
  then show "generate_complete_js (run self calls) =
                ''// PyReact - Transpiled Components'' @ [nl]
                @ concat (map (\<lambda>(component_name, component_code). [nl] @ component_code @ [nl])
                            (components (run self calls)))"
    by (simp only: generate_complete_js_def module_text if_False)
qed

theorem registry_keeps_first_transpiled_order_witness:
  "succeeds \<lparr>cls_name = ''Greeting'', cls_tree = greeting_tree\<rparr>
   \<and> succeeds \<lparr>cls_name = ''Counter'', cls_tree = counter_tree\<rparr>
   \<and> components (run new_transpiler
         [\<lparr>cls_name = ''Greeting'', cls_tree = greeting_tree\<rparr>,
          \<lparr>cls_name = ''Counter'', cls_tree = counter_tree\<rparr>]) =
       [(''Greeting'', emitted \<lparr>cls_name = ''Greeting'', cls_tree = greeting_tree\<rparr>),
        (''Counter'', emitted \<lparr>cls_name = ''Counter'', cls_tree = counter_tree\<rparr>)]
   \<and> generate_complete_js (run new_transpiler
         [\<lparr>cls_name = ''Greeting'', cls_tree = greeting_tree\<rparr>,
          \<lparr>cls_name = ''Counter'', cls_tree = counter_tree\<rparr>]) =
       ''// PyReact - Transpiled Components'' @ [nl] @ [nl]
       @ emitted \<lparr>cls_name = ''Greeting'', cls_tree = greeting_tree\<rparr> @ [nl] @ [nl]
       @ emitted \<lparr>cls_name = ''Counter'', cls_tree = counter_tree\<rparr> @ [nl]"
proof -
  have g: "succeeds \<lparr>cls_name = ''Greeting'', cls_tree = greeting_tree\<rparr>"
    by (rule succeeds_ints_ok)
       (simp_all add: tree_nodes_def example_defs small_int_ok str_raises_simps)
  have c: "succeeds \<lparr>cls_name = ''Counter'', cls_tree = counter_tree\<rparr>"
    by (rule succeeds_ints_ok)
       (simp_all add: tree_nodes_def example_defs small_int_ok str_raises_simps)
  from g c have h: "\<forall>cls\<in>set [\<lparr>cls_name = ''Greeting'', cls_tree = greeting_tree\<rparr>,
                          \<lparr>cls_name = ''Counter'', cls_tree = counter_tree\<rparr>]. succeeds cls"
    by simp
  have n: "components new_transpiler = []"
    by (simp add: new_transpiler_def)
  show ?thesis
    using g c registry_keeps_first_transpiled_order [OF h, of new_transpiler]
    by (simp add: n)
qed

section \<open>The initial state\<close>

lemma extract_targets_skip:
  "\<not> is_state_literal_assign (Assign targets val) \<Longrightarrow>
   extract_targets st val targets = st"
  by (induction targets arbitrary: st) (cases val; simp)+

lemma extract_stmts_filter:
  "extract_stmts st body =
   extract_stmts st (filter is_state_literal_assign body)"
proof (induction body arbitrary: st)
  case Nil
  show ?case by simp
next
  case (Cons s body)
  show ?case
  proof (cases "is_state_literal_assign s")
    case True
    with Cons show ?thesis by simp
  next
    case False
    then have "(case s of Assign targets val \<Rightarrow> extract_targets st val targets
                | _ \<Rightarrow> st) = st"
      by (cases s) (simp_all add: extract_targets_skip)
    with False Cons show ?thesis by simp
  qed
qed

lemma analyze_body_append:
  "analyze_body info (xs @ ys) = analyze_body (analyze_body info xs) ys"
  by (induction xs arbitrary: info) simp_all

lemma analyze_body_no_init:
  "\<forall>node\<in>set body. \<not> is_init_def node \<Longrightarrow>
   initial_state (analyze_body info body) = initial_state info"
  by (induction body arbitrary: info) (auto simp: Let_def split: stmt.splits)

lemma state_assign_raises_literal:
  "(case stmt of
      Assign targets val \<Rightarrow>
        list_ex (\<lambda>target. is_self_attr ''state'' target
                   \<and> (case val of Dict kvs \<Rightarrow> extract_entries_raises kvs | _ \<Rightarrow> False)) targets
    | _ \<Rightarrow> False) \<longrightarrow> is_state_literal_assign stmt"
proof (cases stmt)
  case (Assign targets val)
  then show ?thesis
    by (cases val) (auto simp: list_ex_iff)
qed simp_all

lemma no_literal_no_raise:
  assumes "\<forall>s\<in>set init_body. \<not> is_state_literal_assign s"
  shows "\<not> extract_initial_state_raises init_body"
  using assms state_assign_raises_literal
  unfolding extract_initial_state_raises_def list_ex_iff by blast

text \<open>
  Claim C5. The constructor whose state assignment is the literal \<^verbatim>\<open>{'count': 0}\<close> gives
  the state with the one key \<^verbatim>\<open>count\<close> and the value 0, and the initializer object
  \<^verbatim>\<open>{count: 0}\<close> in the state hook. Only assignments of a dictionary literal to
  \<^verbatim>\<open>self.state\<close> contribute to the extracted state, and the descriptor takes it from the
  last constructor of the class. If no statement of the constructor is such an
  assignment (the right-hand side is a call, a variable, a computed expression), the
  extracted state is empty and no state hook is emitted; neither the extraction nor the
  conversion of the state raises.
\<close>

theorem initial_state_extraction:
  "extract_initial_state
     [super_init,
      Assign [Attribute (Name ''self'') ''state'']
        (Dict [(Some (Constant (CStr ''count'')), Constant (CInt 0))])] = [(CStr ''count'', CInt 0)]
   \<and> state_hook_lines [(CStr ''count'', CInt 0)] =
       [''  const [state, setState] = React.useState({count: 0});'', []]
   \<and> extract_initial_state init_body =
       extract_initial_state (filter is_state_literal_assign init_body)
   \<and> ((\<forall>node\<in>set post. \<not> is_init_def node) \<longrightarrow>
        initial_state (analyze_component_class n (pre @ FunctionDef ''__init__'' a init_body # post)) =
        extract_initial_state init_body)
   \<and> ((\<forall>s\<in>set init_body. \<not> is_state_literal_assign s) \<longrightarrow>
        extract_initial_state init_body = []
        \<and> state_hook_lines (extract_initial_state init_body) = []
        \<and> \<not> extract_initial_state_raises init_body
        \<and> \<not> dict_to_js_object_raises (extract_initial_state init_body))
   \<and> (initial_state info = [] \<longrightarrow>
        fst (generate_js_component lv info) =
          join [nl] ([''function '' @ c_name info @ ''(props) {'']
                     @ method_lines lv (methods info)
                     @ fst (render_lines lv (render_method info))
                     @ [''}'']))"
proof (intro conjI impI)
  show "extract_initial_state
     [super_init,
      Assign [Attribute (Name ''self'') ''state'']
        (Dict [(Some (Constant (CStr ''count'')), Constant (CInt 0))])] = [(CStr ''count'', CInt 0)]"
    by (simp add: extract_initial_state_def super_init_def)
next
  show "state_hook_lines [(CStr ''count'', CInt 0)] =
       [''  const [state, setState] = React.useState({count: 0});'', []]"
    by (simp add: state_hook_lines_def dict_to_js_object_def decimal_def decimal_nat.simps)
next
  show f: "extract_initial_state init_body =
       extract_initial_state (filter is_state_literal_assign init_body)"
    unfolding extract_initial_state_def by (rule extract_stmts_filter)
  assume "\<forall>s\<in>set init_body. \<not> is_state_literal_assign s"
  then have "filter is_state_literal_assign init_body = []"
    by (simp add: filter_empty_conv)
  with f show e: "extract_initial_state init_body = []"
    by (simp add: extract_initial_state_def)
  show "state_hook_lines (extract_initial_state init_body) = []"
    unfolding e by (simp add: state_hook_lines_def)
  show "\<not> extract_initial_state_raises init_body"
    using \<open>\<forall>s\<in>set init_body. \<not> is_state_literal_assign s\<close> by (rule no_literal_no_raise)
  show "\<not> dict_to_js_object_raises (extract_initial_state init_body)"
    unfolding e by (simp add: dict_to_js_object_raises_def)
next
  assume "\<forall>node\<in>set post. \<not> is_init_def node"
  then show "initial_state
          (analyze_component_class n (pre @ FunctionDef ''__init__'' a init_body # post)) =
        extract_initial_state init_body"
    by (simp add: analyze_component_class_def analyze_body_append analyze_body_no_init Let_def)
next
  assume "initial_state info = []"
  then show "fst (generate_js_component lv info) =
          join [nl] ([''function '' @ c_name info @ ''(props) {'']
                     @ method_lines lv (methods info)
                     @ fst (render_lines lv (render_method info))
                     @ [''}''])"
    by (cases "render_lines lv (render_method info)")
       (simp add: generate_js_component_def state_hook_lines_def)
qed

theorem initial_state_extraction_witness:
  "\<not> is_state_literal_assign super_init
   \<and> \<not> is_state_literal_assign
         (Assign [Attribute (Name ''self'') ''state''] (Call (Name ''load_state'') [] []))
   \<and> extract_initial_state
        [super_init,
         Assign [Attribute (Name ''self'') ''state''] (Call (Name ''load_state'') [] [])] = []
   \<and> initial_state (analyze_component_class ''Plain''
        [FunctionDef ''__init__'' [''self'']
           [super_init,
            Assign [Attribute (Name ''self'') ''state''] (Call (Name ''load_state'') [] [])]]) = []
   \<and> fst (generate_js_component None
        \<lparr>c_name = ''Plain'', methods = [], init_method = None, render_method = None,
         initial_state = []\<rparr>) =
       ''function Plain(props) {'' @ [nl] @ ''  return null;'' @ [nl] @ ''}''"
proof -
  let ?init_body =
    "[super_init,
      Assign [Attribute (Name ''self'') ''state''] (Call (Name ''load_state'') [] [])]"
  let ?info = "\<lparr>c_name = ''Plain'', methods = [], init_method = None, render_method = None,
                 initial_state = []\<rparr>"
  have h: "\<forall>s\<in>set ?init_body. \<not> is_state_literal_assign s"
    by (simp add: super_init_def)
  have p: "\<forall>node\<in>set ([] :: stmt list). \<not> is_init_def node"
    by simp
  have i: "initial_state ?info = []"
    by simp
  show ?thesis
    using h p i initial_state_extraction
      [where init_body = ?init_body and info = ?info and lv = None and n = "''Plain''"
         and pre = "[]" and post = "[]" and a = "[''self'']"]
    by (simp add: method_lines_def render_lines_def extract_initial_state_def)
qed

section \<open>Calls in element position\<close>

text \<open>
  Claim C1 says that a call in element position whose callee is not a builder name is
  transpiled as an ordinary call. \<^verbatim>\<open>_transpile_element_expression\<close> hands every call to
  \<^verbatim>\<open>_transpile_element_call\<close>, which returns \<^verbatim>\<open>null\<close> for such a callee: the call
  \<^verbatim>\<open>str(1)\<close> gives \<^verbatim>\<open>null\<close> there, and \<^verbatim>\<open>str(1)\<close> as an ordinary expression.
\<close>

theorem non_builder_call_counterexample:
  "transpile_element_expression None (Call (Name ''str'') [Constant (CInt 1)] []) = ''null''
   \<and> transpile_expression None (Call (Name ''str'') [Constant (CInt 1)] []) = ''str(1)''"
  by (simp add: html_elements_def decimal_def decimal_nat.simps)

text \<open>
  Claim C1, amended. A call in element position (the value returned by the render method,
  or a positional argument of a builder call) whose callee is not a bare identifier of
  the builder registry transpiles to the text \<^verbatim>\<open>null\<close>.
\<close>

theorem non_builder_call_is_null:
  assumes "\<not> is_builder f"
  shows "transpile_element_expression lv (Call f args kws) = ''null''
         \<and> transpile_element_expression_opt lv (Some (Call f args kws)) = ''null''
         \<and> transpile_element_call lv (Name ''div'') [Call f args kws] [] =
             ''React.createElement('' @ [sq] @ ''div'' @ [sq] @ '', null, [null])''"
proof -
  from assms have n: "transpile_element_expression lv (Call f args kws) = ''null''"
    by (cases f) simp_all
  moreover from n have "transpile_element_expression_opt lv (Some (Call f args kws)) = ''null''"
    by (simp add: transpile_element_expression_opt_def)
  moreover from n have "transpile_element_call lv (Name ''div'') [Call f args kws] [] =
             ''React.createElement('' @ [sq] @ ''div'' @ [sq] @ '', null, [null])''"
    by (simp add: html_elements_def)
  ultimately show ?thesis by simp
qed

theorem non_builder_call_is_null_witness:
  "\<not> is_builder (Attribute (Attribute (Name ''self'') ''props'') ''get'')
   \<and> transpile_element_expression None (props_get ''title'' (Constant (CStr ''Hello'')) []) = ''null''
   \<and> transpile_element_call None (Name ''div'')
         [props_get ''title'' (Constant (CStr ''Hello'')) []] [] =
       ''React.createElement('' @ [sq] @ ''div'' @ [sq] @ '', null, [null])''"
proof -
  have h: "\<not> is_builder (Attribute (Attribute (Name ''self'') ''props'') ''get'')"
    by simp
  show ?thesis
    using h non_builder_call_is_null [OF h, of None "[Constant (CStr ''title''), Constant (CStr ''Hello'')]" "[]"]
    by (simp add: props_get_def)
qed

section \<open>The state hook and the state update\<close>

text \<open>
  Claim C2 names the updater \<^verbatim>\<open>update\<close> and the previous state \<^verbatim>\<open>prev\<close>. The code emits
  the names \<^verbatim>\<open>setState\<close> and \<^verbatim>\<open>prevState\<close>: for \<^verbatim>\<open>self.set_state({'count': 1})\<close> the
  statement is not the text of the claim, and the state hook declares
  \<^verbatim>\<open>[state, setState]\<close>.
\<close>

theorem state_update_names_counterexample:
  "transpile_statement None
     (set_state_stmt [(Some (Constant (CStr ''count'')), Constant (CInt 1))]) \<noteq>
   ''update(prev => ({...prev, ...''
     @ transpile_expression None (Dict [(Some (Constant (CStr ''count'')), Constant (CInt 1))])
     @ ''}))''
   \<and> state_hook_lines [(CStr ''count'', CInt 0)] =
       [''  const [state, setState] = React.useState({count: 0});'', []]"
  by (simp add: set_state_stmt_def transpile_method_call_def state_hook_lines_def
        dict_to_js_object_def decimal_def decimal_nat.simps)

text \<open>
  Claim C2, amended. When the initial state of a component is not empty, the second line
  of the emitted function declares the state hook, binding the pair to the names
  \<^verbatim>\<open>state\<close> and \<^verbatim>\<open>setState\<close>; and an expression statement that calls
  \<^verbatim>\<open>self.set_state\<close> with one dictionary literal transpiles to
  \<^verbatim>\<open>setState(prevState => ({...prevState, ...mapping}));\<close>, which spreads the previous
  state before the transpiled mapping.
\<close>

theorem state_hook_and_merging_update:
  "(initial_state info \<noteq> [] \<longrightarrow>
      fst (generate_js_component lv info) =
        join [nl] ([''function '' @ c_name info @ ''(props) {'',
                    ''  const [state, setState] = React.useState(''
                      @ dict_to_js_object (initial_state info) @ '');'',
                    []]
                   @ method_lines lv (methods info)
                   @ fst (render_lines lv (render_method info))
                   @ [''}'']))
   \<and> transpile_statement lv (Expr (Call (Attribute (Name ''self'') ''set_state'') [Dict kvs] kws)) =
       ''setState(prevState => ({...prevState, ...'' @ transpile_expression lv (Dict kvs) @ ''}));''"
proof (intro conjI impI)
  assume "initial_state info \<noteq> []"
  then show "fst (generate_js_component lv info) =
        join [nl] ([''function '' @ c_name info @ ''(props) {'',
                    ''  const [state, setState] = React.useState(''
                      @ dict_to_js_object (initial_state info) @ '');'',
                    []]
                   @ method_lines lv (methods info)
                   @ fst (render_lines lv (render_method info))
                   @ [''}''])"
    by (cases "render_lines lv (render_method info)")
       (simp add: generate_js_component_def state_hook_lines_def)
next
  show "transpile_statement lv (Expr (Call (Attribute (Name ''self'') ''set_state'') [Dict kvs] kws)) =
       ''setState(prevState => ({...prevState, ...'' @ transpile_expression lv (Dict kvs) @ ''}));''"
    by (simp add: transpile_method_call_def)
qed

theorem state_hook_and_merging_update_witness:
  "initial_state \<lparr>c_name = ''Plain'', methods = [], init_method = None, render_method = None,
      initial_state = [(CStr ''count'', CInt 0)]\<rparr> \<noteq> []
   \<and> fst (generate_js_component None
        \<lparr>c_name = ''Plain'', methods = [], init_method = None, render_method = None,
         initial_state = [(CStr ''count'', CInt 0)]\<rparr>) =
       ''function Plain(props) {'' @ [nl]
       @ ''  const [state, setState] = React.useState({count: 0});'' @ [nl]
       @ [nl]
       @ ''  return null;'' @ [nl]
       @ ''}''"
proof -
  let ?info = "\<lparr>c_name = ''Plain'', methods = [], init_method = None, render_method = None,
                 initial_state = [(CStr ''count'', CInt 0)]\<rparr>"
  have h: "initial_state ?info \<noteq> []"
    by simp
  show ?thesis
    using h state_hook_and_merging_update [where info = ?info and lv = None]
    by (simp add: method_lines_def render_lines_def dict_to_js_object_def decimal_def
          decimal_nat.simps)
qed

section \<open>The fallback of a property\<close>

lemma dropWhile_keeps: "xs \<noteq> [] \<Longrightarrow> \<not> P (hd xs) \<Longrightarrow> dropWhile P xs = xs"
  by (cases xs) simp_all

lemma strip_quotes:
  assumes "quote_free_ends key"
  shows "strip [dq, sq] (dq # key @ [dq]) = key"
proof (cases "key = []")
  case True
  then show ?thesis by (simp add: strip_def)
next
  case False
  with assms have h: "hd key \<notin> {dq, sq}" and l: "last key \<notin> {dq, sq}"
    by (simp_all add: quote_free_ends_def)
  have "dropWhile (\<lambda>c. c \<in> set [dq, sq]) (dq # key @ [dq]) = key @ [dq]"
    using False h by (simp add: dropWhile_keeps)
  moreover have "dropWhile (\<lambda>c. c \<in> set [dq, sq]) (rev (key @ [dq])) = rev key"
    using False l by (simp add: dropWhile_keeps hd_rev)
  ultimately show ?thesis
    by (simp only: strip_def rev_rev_ident)
qed

text \<open>
  Claim C6 says that \<^verbatim>\<open>self.props.get(key, default)\<close> gives \<^verbatim>\<open>(props.key || default)\<close> for
  every literal string key. The code takes the quoted text of the key and strips the
  quote characters from its ends, so a key that ends with an apostrophe loses it: for
  the key \<^verbatim>\<open>users'\<close> the text is \<^verbatim>\<open>(props.users || 0)\<close>.
\<close>

theorem props_get_quoted_key_counterexample:
  "transpile_expression None (props_get (''users'' @ [sq]) (Constant (CInt 0)) []) \<noteq>
   ''(props.'' @ (''users'' @ [sq]) @ '' || '' @ transpile_expression None (Constant (CInt 0)) @ '')''
   \<and> transpile_expression None (props_get (''users'' @ [sq]) (Constant (CInt 0)) []) =
       ''(props.users || 0)''"
  by (simp add: props_get_def strip_def dq_def sq_def decimal_def decimal_nat.simps)

text \<open>
  Claim C6, amended. For a call \<^verbatim>\<open>self.props.get(key, default)\<close> with exactly two
  arguments whose key is a literal string that neither starts nor ends with a quote
  character, the text is \<^verbatim>\<open>(props.key || default)\<close> with the transpiled default; in
  particular \<^verbatim>\<open>self.props.get('name', self.state['name'])\<close> gives
  \<^verbatim>\<open>(props.name || state.name)\<close>.
\<close>

theorem props_get_fallback:
  "(quote_free_ends key \<longrightarrow>
      transpile_expression lv (props_get key dflt kws) =
        ''(props.'' @ key @ '' || '' @ transpile_expression lv dflt @ '')'')
   \<and> transpile_expression lv (props_get ''name'' (self_state ''name'') []) =
       ''(props.name || state.name)''"
proof (intro conjI impI)
  assume "quote_free_ends key"
  then show "transpile_expression lv (props_get key dflt kws) =
        ''(props.'' @ key @ '' || '' @ transpile_expression lv dflt @ '')''"
    by (simp add: props_get_def strip_quotes)
next
  show "transpile_expression lv (props_get ''name'' (self_state ''name'') []) =
       ''(props.name || state.name)''"
    by (simp add: props_get_def strip_def dq_def sq_def self_state_def transpile_subscript_def)
qed

theorem props_get_fallback_witness:
  "quote_free_ends ''title''
   \<and> transpile_expression None (props_get ''title'' (Constant (CStr ''Hello'')) []) =
       ''(props.title || '' @ [dq] @ ''Hello'' @ [dq] @ '')''"
proof -
  have h: "quote_free_ends ''title''"
    by (simp add: quote_free_ends_def dq_def sq_def)
  show ?thesis
    using h props_get_fallback [where key = "''title''" and lv = None
                                  and dflt = "Constant (CStr ''Hello'')" and kws = "[]"]
    by simp
qed

end
